theory Spec2Isabelle
  imports Complex_Main "HOL-Library.Log_Nat"
begin

section \<open>Numbers\<close>

text \<open>
  Numbers of the program are JavaScript numbers: IEEE 754 doubles. A finite double is a
  rational, and the model keeps numbers as rationals and rounds the exact result of
  every addition, subtraction and multiplication to the nearest double (53 significant
  bits, ties to the even one), as the machine does. The range of the exponent is not
  modelled: results beyond the largest double (about \<open>1.8 * 10^308\<close>) or below the smallest
  normal one are outside the model, and so are the infinities. NaN appears only where
  the source parses a form field (\<open>parseFloat\<close>, as \<open>None\<close>).
\<close>

text \<open>The nearest integer, the even one at a tie.\<close>

definition round_even :: "rat \<Rightarrow> int" where
  "round_even m =
     (let f = \<lfloor>m\<rfloor>; r = m - of_int f
      in if r < 1 / 2 then f else if 1 / 2 < r then f + 1 else if even f then f else f + 1)"

text \<open>The binary exponent of a number other than 0: the \<open>e\<close> with \<open>2^e \<le> |x| < 2^(e+1)\<close>, from the
  bit lengths of numerator and denominator.\<close>

definition expo :: "rat \<Rightarrow> int" where
  "expo x =
     (case quotient_of \<bar>x\<bar> of (p, q) \<Rightarrow>
        let e = bitlen p - bitlen q in if 2 powi e \<le> \<bar>x\<bar> then e else e - 1)"

text \<open>Rounding to a double: to a multiple of the unit in the last place, \<open>2^(e - 52)\<close>.\<close>

definition double_round :: "rat \<Rightarrow> rat" where
  "double_round x =
     (if x = 0 then 0
      else let ulp = 2 powi (expo x - 52) in of_int (round_even (x / ulp)) * ulp)"

text \<open>\<open>a + b\<close>, \<open>a - b\<close> and \<open>a * b\<close> of the program.\<close>

definition js_add :: "rat \<Rightarrow> rat \<Rightarrow> rat" where
  "js_add a b = double_round (a + b)"

definition js_sub :: "rat \<Rightarrow> rat \<Rightarrow> rat" where
  "js_sub a b = double_round (a - b)"

definition js_mul :: "rat \<Rightarrow> rat \<Rightarrow> rat" where
  "js_mul a b = double_round (a * b)"

text \<open>A whole number below \<open>2^52\<close> in magnitude: sums and differences of two of them are
  exact in doubles.\<close>

definition whole :: "rat \<Rightarrow> bool" where
  "whole x = (x = of_int \<lfloor>x\<rfloor> \<and> \<bar>x\<bar> < 2 ^ 52)"

section \<open>Stock reconciliation (stockUtils: updateStockQuantity, restoreStockQuantity)\<close>

text \<open>
  Times are milliseconds since the epoch. Strings are kept as the bytes of their UTF-8
  encoding, so that \<open>===\<close> on strings is equality of the byte lists. The stock collection
  of the document store is the list of its documents, in the order a query returns
  them; document ids are unique in a collection, which the theorems that need it assume
  as \<open>distinct (map sid store)\<close>. A failing backend call (which the source rethrows) is
  not modelled: every read and write succeeds.
\<close>

type_synonym timestamp = nat

record stockItem =
  sid :: string
  shopId :: string
  name :: string
  price :: rat
  quantity :: rat
  quantityUnit :: "string option"
  updatedAt :: timestamp

text \<open>A line handed to the reconciler: \<open>{name, quantity, quantityUnit}\<close>. The quantity is
  the number it holds (what \<open>parseFloat\<close> gives for it, in restoreStockQuantity); an
  absent \<open>quantityUnit\<close> is \<open>None\<close>.\<close>

record soldItem =
  item_name :: string
  item_quantity :: rat
  item_quantityUnit :: "string option"

text \<open>\<open>!u\<close> for an optional string: undefined, null and the empty string are falsy.\<close>

definition falsy :: "string option \<Rightarrow> bool" where
  "falsy u = (u = None \<or> u = Some [])"

text \<open>\<open>query(stockRef, where('shopId', '==', shopId))\<close>\<close>

definition stockQuery :: "string \<Rightarrow> stockItem list \<Rightarrow> stockItem list" where
  "stockQuery shop store = filter (\<lambda>d. shopId d = shop) store"

text \<open>\<open>updateStockItem(itemId, {quantity: newQuantity})\<close>: the document with that id gets
  the new quantity and \<open>updatedAt\<close>.\<close>

definition updateStockItem :: "timestamp \<Rightarrow> string \<Rightarrow> rat \<Rightarrow> stockItem list \<Rightarrow> stockItem list" where
  "updateStockItem now itemId newQuantity store =
     map (\<lambda>d. if sid d = itemId then d\<lparr>quantity := newQuantity, updatedAt := now\<rparr> else d) store"

text \<open>\<open>!soldItem.quantityUnit || soldItem.quantityUnit === stockItem.quantityUnit\<close>\<close>

definition unitsMatch :: "soldItem \<Rightarrow> stockItem \<Rightarrow> bool" where
  "unitsMatch soldItem stockItem =
     (falsy (item_quantityUnit soldItem) \<or> item_quantityUnit soldItem = quantityUnit stockItem)"

text \<open>The body of \<open>items.map(soldItem => ...)\<close> in updateStockQuantity: the write it issues
  (document id, new quantity), or \<open>None\<close> for \<open>Promise.resolve()\<close>.\<close>

definition soldUpdate :: "stockItem list \<Rightarrow> soldItem \<Rightarrow> (string \<times> rat) option" where
  "soldUpdate stockItems soldItem =
     (case find (\<lambda>item. name item = item_name soldItem) stockItems of
        None \<Rightarrow> None
      | Some stockItem \<Rightarrow>
          if unitsMatch soldItem stockItem
          then Some (sid stockItem, max 0 (js_sub (quantity stockItem) (item_quantity soldItem)))
          else None)"

text \<open>The body of \<open>items.map(receiptItem => ...)\<close> in restoreStockQuantity.\<close>

definition restoreUpdate :: "stockItem list \<Rightarrow> soldItem \<Rightarrow> (string \<times> rat) option" where
  "restoreUpdate stockItems receiptItem =
     (case find (\<lambda>item. name item = item_name receiptItem) stockItems of
        None \<Rightarrow> None
      | Some stockItem \<Rightarrow>
          if unitsMatch receiptItem stockItem
          then Some (sid stockItem, js_add (quantity stockItem) (item_quantity receiptItem))
          else None)"

text \<open>\<open>await Promise.all(updates)\<close>: the writes were issued in the order of the lines and
  reach the store in that order; a later write to the same document overwrites an
  earlier one.\<close>

definition applyUpdates :: "timestamp \<Rightarrow> (string \<times> rat) option list \<Rightarrow> stockItem list \<Rightarrow> stockItem list" where
  "applyUpdates now updates store =
     foldl (\<lambda>s u. case u of None \<Rightarrow> s | Some (i, q) \<Rightarrow> updateStockItem now i q s) store updates"

definition updateStockQuantity :: "timestamp \<Rightarrow> string \<Rightarrow> soldItem list \<Rightarrow> stockItem list \<Rightarrow> stockItem list" where
  "updateStockQuantity now shop items store =
     (let stockItems = stockQuery shop store;
          updates = map (soldUpdate stockItems) items
      in applyUpdates now updates store)"

definition restoreStockQuantity :: "timestamp \<Rightarrow> string \<Rightarrow> soldItem list \<Rightarrow> stockItem list \<Rightarrow> stockItem list" where
  "restoreStockQuantity now shop items store =
     (let stockItems = stockQuery shop store;
          updates = map (restoreUpdate stockItems) items
      in applyUpdates now updates store)"

text \<open>The stock item a line adjusts: the first one of the shop with the line's name,
  when the unit test passes. Both \<open>soldUpdate\<close> and \<open>restoreUpdate\<close> write to it and to no
  other (lemmas \<open>soldUpdate_matched\<close>, \<open>restoreUpdate_matched\<close>).\<close>

definition matchedStock :: "stockItem list \<Rightarrow> soldItem \<Rightarrow> stockItem option" where
  "matchedStock stockItems l =
     (case find (\<lambda>item. name item = item_name l) stockItems of
        None \<Rightarrow> None
      | Some st \<Rightarrow> if unitsMatch l st then Some st else None)"

text \<open>A line of \<open>d\<close> against a stock of \<open>q\<close> that the save does not clamp and for which adding \<open>d\<close>
  back to the difference gives \<open>q\<close> again in the arithmetic of the program. Whole numbers
  with \<open>d \<le> q\<close> are such (lemma \<open>restoresExactly_whole\<close>).\<close>

definition restoresExactly :: "rat \<Rightarrow> rat \<Rightarrow> bool" where
  "restoresExactly q d = (d \<le> q \<and> js_add (js_sub q d) d = q)"

text \<open>What a list of writes does to one document.\<close>

definition docAfter :: "timestamp \<Rightarrow> (string \<times> rat) option list \<Rightarrow> stockItem \<Rightarrow> stockItem" where
  "docAfter now updates d =
     foldl (\<lambda>d u. case u of None \<Rightarrow> d
                   | Some (i, q) \<Rightarrow> if sid d = i then d\<lparr>quantity := q, updatedAt := now\<rparr> else d)
           d updates"

section \<open>Receipt totals (receiptUtils: calculateTotal)\<close>

text \<open>A form field holds a string; the model keeps what \<open>parseFloat\<close> and \<open>!\<close> see
  of it: the empty string, a string that does not start with a number (NaN), or the
  decimal number it starts with.\<close>

datatype field = Blank | Garbage | Numeric rat

text \<open>\<open>parseFloat\<close>: the double nearest to the decimal number; \<open>None\<close> is NaN.\<close>

fun parseFloat :: "field \<Rightarrow> rat option" where
  "parseFloat Blank = None"
| "parseFloat Garbage = None"
| "parseFloat (Numeric r) = Some (double_round r)"

record formItem =
  f_name :: string
  f_price :: field
  f_quantity :: field
  f_quantityUnit :: "string option"

text \<open>Arithmetic with NaN: any NaN operand gives NaN.\<close>

definition nan_mult :: "rat option \<Rightarrow> rat option \<Rightarrow> rat option" where
  "nan_mult a b = (case (a, b) of (Some x, Some y) \<Rightarrow> Some (js_mul x y) | _ \<Rightarrow> None)"

definition nan_add :: "rat option \<Rightarrow> rat option \<Rightarrow> rat option" where
  "nan_add a b = (case (a, b) of (Some x, Some y) \<Rightarrow> Some (js_add x y) | _ \<Rightarrow> None)"

definition nan_sub :: "rat option \<Rightarrow> rat option \<Rightarrow> rat option" where
  "nan_sub a b = (case (a, b) of (Some x, Some y) \<Rightarrow> Some (js_sub x y) | _ \<Rightarrow> None)"

definition digit :: "nat \<Rightarrow> char" where
  "digit n = ''0123456789'' ! (n mod 10)"

fun show_nat :: "nat \<Rightarrow> string" where
  "show_nat n = (if n < 10 then [digit n] else show_nat (n div 10) @ [digit n])"

declare show_nat.simps [simp del]

text \<open>The value of a call: the number \<open>0\<close> of the early return, the string of \<open>toFixed\<close>,
  or, for a magnitude of at least \<open>10^21\<close>, where \<open>toFixed\<close> returns the exponent notation
  of \<open>ToString\<close>, that number unrendered.\<close>

datatype total = TNumber rat | TString string | TExponent rat

text \<open>\<open>x.toFixed(2)\<close>, on the exact value of the double \<open>x\<close>: the nearest multiple of 1/100 of
  the magnitude, the larger one at a tie, written with the sign, the integer digits, a
  point and two digits.\<close>

definition hundredths :: "rat \<Rightarrow> nat" where
  "hundredths x = nat \<lfloor>\<bar>x\<bar> * 100 + 1 / 2\<rfloor>"

definition toFixed2 :: "rat option \<Rightarrow> total" where
  "toFixed2 v =
     (case v of
        None \<Rightarrow> TString ''NaN''
      | Some x \<Rightarrow>
          if 10 ^ 21 \<le> \<bar>x\<bar> then TExponent x
          else let n = hundredths x
               in TString ((if x < 0 then ''-'' else []) @ show_nat (n div 100) @ ''.''
                            @ [digit (n div 10), digit n]))"

definition subtotalOf :: "formItem list \<Rightarrow> rat option" where
  "subtotalOf items =
     foldl (\<lambda>total item. nan_add total (nan_mult (parseFloat (f_price item)) (parseFloat (f_quantity item))))
           (Some 0) items"

text \<open>\<open>calculateTotal(items, discount)\<close>; a missing \<open>items\<close> is \<open>None\<close>.
  \<open>parseFloat(discount) || 0\<close> is \<open>0\<close> for NaN and for \<open>0\<close>.\<close>

definition calculateTotal :: "formItem list option \<Rightarrow> field \<Rightarrow> total" where
  "calculateTotal items discount =
     (case items of
        None \<Rightarrow> TNumber 0
      | Some its \<Rightarrow>
          if length its = 0 then TNumber 0
          else let subtotal = subtotalOf its;
                   discountAmount = (case parseFloat discount of None \<Rightarrow> 0 | Some d \<Rightarrow> d)
               in toFixed2 (nan_sub subtotal (Some discountAmount)))"

section \<open>Strings\<close>

text \<open>\<open>toLowerCase\<close> as it acts on ASCII text: the letters A to Z are mapped, every other
  byte is left as it is. The login page applies it to the value of an email field,
  which is ASCII. Product names may hold any letters: for them the case mapping of the
  runtime is a parameter (\<open>lc\<close>) of validateInventory below, and this function stands for
  it where the names evaluated are ASCII.\<close>

definition toLowerChar :: "char \<Rightarrow> char" where
  "toLowerChar c =
     (case map_of (zip ''ABCDEFGHIJKLMNOPQRSTUVWXYZ'' ''abcdefghijklmnopqrstuvwxyz'') c of
        None \<Rightarrow> c
      | Some l \<Rightarrow> l)"

definition toLowerCase :: "string \<Rightarrow> string" where
  "toLowerCase s = map toLowerChar s"

text \<open>The white space and line terminators that \<open>trim\<close> strips, in UTF-8: U+0009 to U+000D,
  U+0020, U+00A0, U+1680, U+2000 to U+200A, U+2028, U+2029, U+202F, U+205F, U+3000 and
  U+FEFF.\<close>

definition whiteSpace :: "string list" where
  "whiteSpace =
     [[CHR 0x09], [CHR 0x0A], [CHR 0x0B], [CHR 0x0C], [CHR 0x0D], [CHR 0x20],
      [CHR 0xC2, CHR 0xA0],
      [CHR 0xE1, CHR 0x9A, CHR 0x80],
      [CHR 0xE2, CHR 0x80, CHR 0x80], [CHR 0xE2, CHR 0x80, CHR 0x81],
      [CHR 0xE2, CHR 0x80, CHR 0x82], [CHR 0xE2, CHR 0x80, CHR 0x83],
      [CHR 0xE2, CHR 0x80, CHR 0x84], [CHR 0xE2, CHR 0x80, CHR 0x85],
      [CHR 0xE2, CHR 0x80, CHR 0x86], [CHR 0xE2, CHR 0x80, CHR 0x87],
      [CHR 0xE2, CHR 0x80, CHR 0x88], [CHR 0xE2, CHR 0x80, CHR 0x89],
      [CHR 0xE2, CHR 0x80, CHR 0x8A],
      [CHR 0xE2, CHR 0x80, CHR 0xA8], [CHR 0xE2, CHR 0x80, CHR 0xA9],
      [CHR 0xE2, CHR 0x80, CHR 0xAF],
      [CHR 0xE2, CHR 0x81, CHR 0x9F],
      [CHR 0xE3, CHR 0x80, CHR 0x80],
      [CHR 0xEF, CHR 0xBB, CHR 0xBF]]"

text \<open>The white space character a string starts with, if it starts with one.\<close>

definition leadingSpace :: "string \<Rightarrow> string option" where
  "leadingSpace s = find (\<lambda>w. take (length w) s = w) whiteSpace"

text \<open>\<open>!s.trim()\<close>: the string is empty or white space throughout.\<close>

function blank :: "string \<Rightarrow> bool" where
  "blank s =
     (if s = [] then True
      else (case leadingSpace s of
              None \<Rightarrow> False
            | Some w \<Rightarrow> blank (drop (length w) s)))"
  by pat_completeness auto
termination
proof (relation "measure length")
  show "wf (measure length)" by simp
next
  fix s w
  assume s: "s \<noteq> []" and w: "leadingSpace s = Some w"
  have "w \<in> set whiteSpace"
    using w unfolding leadingSpace_def by (auto simp: find_Some_iff)
  then have "0 < length w" by (auto simp: whiteSpace_def)
  then show "(drop (length w) s, s) \<in> measure length" using s by simp
qed

declare blank.simps [simp del]

section \<open>Receipts (NewReceipt: validateInventory, handleSubmit; receiptUtils: deleteReceipt)\<close>

text \<open>A receipt document, with what the stock reconciler and the total need of it. Its
  lines are kept with the numbers \<open>parseFloat\<close> reads from them, which \<open>handleSubmit\<close>
  has checked to be numbers before it saves a receipt.\<close>

record receipt =
  rid :: string
  rshopId :: string
  ritems :: "soldItem list"
  rtotalAmount :: total
  rdiscount :: rat
  rtimestamp :: timestamp

record db =
  receipts :: "receipt list"
  stock :: "stockItem list"

datatype invalidItem = ItemNotInInventory string | InsufficientQuantity string rat

datatype validation = Valid | Invalid "invalidItem list"

text \<open>The body of the loop of validateInventory for one item; \<open>q < NaN\<close> is false. \<open>lc\<close> is
  \<open>toLowerCase\<close> of the runtime.\<close>

definition inventoryCheck :: "(string \<Rightarrow> string) \<Rightarrow> stockItem list \<Rightarrow> formItem \<Rightarrow> invalidItem list" where
  "inventoryCheck lc stockItems item =
     (case find (\<lambda>stockItem. lc (name stockItem) = lc (f_name item)) stockItems of
        None \<Rightarrow> [ItemNotInInventory (f_name item)]
      | Some matchingStock \<Rightarrow>
          (case parseFloat (f_quantity item) of
             None \<Rightarrow> []
           | Some q \<Rightarrow> if quantity matchingStock < q
                        then [InsufficientQuantity (f_name item) (quantity matchingStock)]
                        else []))"

text \<open>\<open>stockLoaded\<close> and \<open>stockItems\<close> are the page's state: the stock as it was fetched
  when the page was opened, if that fetch has returned.\<close>

definition validateInventory :: "(string \<Rightarrow> string) \<Rightarrow> bool \<Rightarrow> stockItem list \<Rightarrow> formItem list \<Rightarrow> validation" where
  "validateInventory lc stockLoaded stockItems items =
     (if \<not> stockLoaded then Valid
      else let invalidItems = concat (map (inventoryCheck lc stockItems) items)
           in if length invalidItems > 0 then Invalid invalidItems else Valid)"

datatype submitError =
    CashierRequired | ItemDetailsRequired | InvalidPrices | InvalidQuantities
  | InventoryError "invalidItem list"

definition isInteger :: "rat \<Rightarrow> bool" where
  "isInteger q = (q = of_int \<lfloor>q\<rfloor>)"

text \<open>The body of the loop "Validate items" of handleSubmit: the error it returns with,
  if any.\<close>

definition checkItem :: "formItem \<Rightarrow> submitError option" where
  "checkItem item =
     (if blank (f_name item) \<or> f_price item = Blank \<or> f_quantity item = Blank
      then Some ItemDetailsRequired
      else (case parseFloat (f_price item) of
        None \<Rightarrow> Some InvalidPrices
      | Some p \<Rightarrow>
          if p \<le> 0 then Some InvalidPrices
          else (case parseFloat (f_quantity item) of
            None \<Rightarrow> Some InvalidQuantities
          | Some quantityValue \<Rightarrow>
              if quantityValue \<le> 0 then Some InvalidQuantities
              else if f_quantityUnit item \<noteq> Some ''kg'' \<and> (quantityValue < 1 \<or> \<not> isInteger quantityValue)
              then Some InvalidQuantities
              else None)))"

text \<open>The first item that fails stops the loop.\<close>

fun checkItems :: "formItem list \<Rightarrow> submitError option" where
  "checkItems [] = None"
| "checkItems (item # items) =
     (case checkItem item of Some e \<Rightarrow> Some e | None \<Rightarrow> checkItems items)"

text \<open>\<open>parseFloat\<close> of a field that the loop above has let through; NaN does not get
  here.\<close>

fun number :: "field \<Rightarrow> rat" where
  "number (Numeric r) = double_round r"

text \<open>The line stored in the receipt, and the line handed to updateStockQuantity:
  \<open>{name, quantity: parseFloat(item.quantity), quantityUnit: item.quantityUnit || 'units'}\<close>.
  The cost price that handleSubmit copies into the stored line plays no part in the
  stock or the total and is left out.\<close>

definition receiptLine :: "formItem \<Rightarrow> soldItem" where
  "receiptLine item =
     \<lparr>item_name = f_name item, item_quantity = number (f_quantity item),
      item_quantityUnit = f_quantityUnit item\<rparr>"

definition soldLine :: "formItem \<Rightarrow> soldItem" where
  "soldLine item =
     \<lparr>item_name = f_name item, item_quantity = number (f_quantity item),
      item_quantityUnit = (if falsy (f_quantityUnit item) then Some ''units'' else f_quantityUnit item)\<rparr>"

text \<open>What the form holds when it is submitted.\<close>

record form =
  form_cashierName :: string
  form_items :: "formItem list"
  form_discount :: field
  form_stockLoaded :: bool
  form_stockItems :: "stockItem list"

text \<open>handleSubmit of NewReceipt for the signed-in shop \<open>uid\<close>; \<open>newId\<close> is the id the store
  gives the new receipt and \<open>lc\<close> is \<open>toLowerCase\<close> of the runtime. An error leaves the store
  as it is.\<close>

definition handleSubmit :: "(string \<Rightarrow> string) \<Rightarrow> timestamp \<Rightarrow> string \<Rightarrow> string \<Rightarrow> form \<Rightarrow> db \<Rightarrow> submitError + db" where
  "handleSubmit lc now newId uid f s =
     (if blank (form_cashierName f) then Inl CashierRequired
      else (case checkItems (form_items f) of
        Some e \<Rightarrow> Inl e
      | None \<Rightarrow>
          (case validateInventory lc (form_stockLoaded f) (form_stockItems f) (form_items f) of
             Invalid invalidItems \<Rightarrow> Inl (InventoryError invalidItems)
           | Valid \<Rightarrow>
               let receiptData = \<lparr>rid = newId, rshopId = uid, ritems = map receiptLine (form_items f),
                                  rtotalAmount = calculateTotal (Some (form_items f)) (form_discount f),
                                  rdiscount = (case parseFloat (form_discount f) of None \<Rightarrow> 0 | Some d \<Rightarrow> d),
                                  rtimestamp = now\<rparr>;
                   saved = s\<lparr>receipts := receipts s @ [receiptData]\<rparr>
               in Inr (saved\<lparr>stock := updateStockQuantity now uid (map soldLine (form_items f)) (stock saved)\<rparr>))))"

datatype receiptError = ReceiptNotFound

text \<open>deleteReceipt: getReceiptById throws when there is no such receipt; the receipt is
  deleted, then its lines are restored.\<close>

definition deleteReceipt :: "timestamp \<Rightarrow> string \<Rightarrow> db \<Rightarrow> receiptError + db" where
  "deleteReceipt now receiptId s =
     (case find (\<lambda>r. rid r = receiptId) (receipts s) of
        None \<Rightarrow> Inl ReceiptNotFound
      | Some receipt \<Rightarrow>
          let deleted = s\<lparr>receipts := filter (\<lambda>r. rid r \<noteq> receiptId) (receipts s)\<rparr>
          in Inr (if length (ritems receipt) > 0
                  then deleted\<lparr>stock := restoreStockQuantity now (rshopId receipt) (ritems receipt) (stock deleted)\<rparr>
                  else deleted))"

text \<open>A run of the application: receipts submitted and receipts deleted, each at its
  time; a refused submission and a failed deletion change nothing.\<close>

datatype event = Submit timestamp string string form | Delete timestamp string

fun step :: "(string \<Rightarrow> string) \<Rightarrow> db \<Rightarrow> event \<Rightarrow> db" where
  "step lc s (Submit now newId uid f) =
     (case handleSubmit lc now newId uid f s of Inl e \<Rightarrow> s | Inr s' \<Rightarrow> s')"
| "step lc s (Delete now receiptId) =
     (case deleteReceipt now receiptId s of Inl e \<Rightarrow> s | Inr s' \<Rightarrow> s')"

definition run :: "(string \<Rightarrow> string) \<Rightarrow> db \<Rightarrow> event list \<Rightarrow> db" where
  "run lc s events = foldl (step lc) s events"

text \<open>The invariant of a run: no stock quantity and no stored line quantity is negative.\<close>

definition nonneg :: "db \<Rightarrow> bool" where
  "nonneg s = ((\<forall>d \<in> set (stock s). 0 \<le> quantity d) \<and>
               (\<forall>r \<in> set (receipts s). \<forall>l \<in> set (ritems r). 0 \<le> item_quantity l))"

section \<open>The total in the words of the specification\<close>







section \<open>Login attempts (AuthContext: login; Login: handleSubmit)\<close>

text \<open>A document of the collection \<open>shops\<close>, with the fields the login flow reads and writes;
  a field the document does not have is \<open>None\<close>. \<open>uid\<close> is the document id.\<close>

record shopAccount =
  uid :: string
  email :: "string option"
  userEmail :: "string option"
  failedLoginAttempts :: "nat option"
  lockedUntil :: "timestamp option"
  lockDuration :: "nat option"
  accountStatus :: "string option"
  status :: "string option"
  lockedAt :: "timestamp option"
  lastLoginAt :: "timestamp option"
  lastFailedLoginAt :: "timestamp option"

text \<open>What the authentication service answers to \<open>signInWithEmailAndPassword\<close>: the user
  id, or an error code.\<close>

datatype authCode = WrongPassword | UserNotFound | OtherCode

datatype signIn = SignedIn string | Refused authCode

text \<open>What \<open>login\<close> throws: the error of the service, or its own "Account locked" error,
  which has no code.\<close>

datatype loginError = AuthError authCode | AccountLocked

text \<open>\<open>updateDoc(doc(db, 'shops', id), ...)\<close>\<close>

definition updateShop :: "string \<Rightarrow> (shopAccount \<Rightarrow> shopAccount) \<Rightarrow> shopAccount list \<Rightarrow> shopAccount list" where
  "updateShop i f shops = map (\<lambda>d. if uid d = i then f d else d) shops"

text \<open>\<open>userData.failedLoginAttempts || 0\<close>\<close>

definition attemptsOr0 :: "shopAccount \<Rightarrow> nat" where
  "attemptsOr0 userData = (case failedLoginAttempts userData of None \<Rightarrow> 0 | Some n \<Rightarrow> n)"

text \<open>The \<open>.then\<close> of login: the sign-in succeeded for \<open>user\<close>.\<close>

definition loginSucceeded :: "timestamp \<Rightarrow> string \<Rightarrow> shopAccount list \<Rightarrow> shopAccount list" where
  "loginSucceeded now user shops =
     (case find (\<lambda>d. uid d = user) shops of
        None \<Rightarrow> shops
      | Some userData \<Rightarrow>
          if attemptsOr0 userData \<noteq> 0
          then updateShop user (\<lambda>d. d\<lparr>failedLoginAttempts := Some 0, lastLoginAt := Some now\<rparr>) shops
          else updateShop user (\<lambda>d. d\<lparr>lastLoginAt := Some now\<rparr>) shops)"

text \<open>The \<open>.catch\<close> of login: the error it throws on, and the store it leaves.\<close>

definition loginFailed :: "timestamp \<Rightarrow> string \<Rightarrow> authCode \<Rightarrow> shopAccount list \<Rightarrow> loginError \<times> shopAccount list" where
  "loginFailed now em code shops =
     (if code = WrongPassword \<and> em \<noteq> []
      then (case find (\<lambda>d. userEmail d = Some em) shops of
              None \<Rightarrow> (AuthError code, shops)
            | Some userData \<Rightarrow>
                let currentAttempts = attemptsOr0 userData;
                    counted = updateShop (uid userData)
                                (\<lambda>d. d\<lparr>failedLoginAttempts := Some (currentAttempts + 1),
                                        lastFailedLoginAt := Some now\<rparr>) shops
                in if currentAttempts + 1 \<ge> 5
                   then (AccountLocked,
                         updateShop (uid userData)
                           (\<lambda>d. d\<lparr>accountStatus := Some ''locked'', lockedAt := Some now\<rparr>) counted)
                   else (AuthError code, counted))
      else (AuthError code, shops))"

text \<open>\<open>login(email, password)\<close> of AuthContext, given the answer of the authentication
  service to this email and password.\<close>

definition login :: "timestamp \<Rightarrow> string \<Rightarrow> signIn \<Rightarrow> shopAccount list \<Rightarrow> (loginError + string) \<times> shopAccount list" where
  "login now em answer shops =
     (case answer of
        SignedIn user \<Rightarrow> (Inr user, loginSucceeded now user shops)
      | Refused code \<Rightarrow> (case loginFailed now em code shops of (e, shops') \<Rightarrow> (Inl e, shops')))"

text \<open>What the login page shows or does at the end of handleSubmit.\<close>

datatype loginResult =
    TemporarilyLocked int
  | Dashboard
  | PendingApproval | AccountFrozen | AccountRejected
  | UserDataNotFound
  | LockedFor15Minutes
  | AttemptsRemaining nat
  | InvalidEmailOrPassword
  | FailedToSignIn loginError

text \<open>The check "if account is locked" at the head of handleSubmit: the minutes left when
  the account is locked, \<open>None\<close> when the login goes ahead. A stored timestamp is an
  object and so truthy; a duration is truthy when it is not \<open>0\<close>.\<close>

definition lockCheck :: "timestamp \<Rightarrow> string \<Rightarrow> shopAccount list \<Rightarrow> int option" where
  "lockCheck now em shops =
     (case find (\<lambda>d. email d = Some (toLowerCase em)) shops of
        None \<Rightarrow> None
      | Some userData \<Rightarrow>
          (case (lockedUntil userData, lockDuration userData) of
             (Some lockTime, Some duration) \<Rightarrow>
               if duration \<noteq> 0
               then let lockExpiryTime = lockTime + duration * 60000
                    in if lockExpiryTime > now
                       then Some \<lceil>(rat_of_nat lockExpiryTime - rat_of_nat now) / 60000\<rceil>
                       else None
               else None
           | _ \<Rightarrow> None))"

text \<open>The \<open>catch\<close> of handleSubmit.\<close>

definition submitFailed :: "timestamp \<Rightarrow> string \<Rightarrow> loginError \<Rightarrow> shopAccount list \<Rightarrow> loginResult \<times> shopAccount list" where
  "submitFailed now em e shops =
     (if e = AuthError WrongPassword \<or> e = AuthError UserNotFound
      then (case find (\<lambda>d. email d = Some (toLowerCase em)) shops of
              None \<Rightarrow> (InvalidEmailOrPassword, shops)
            | Some userData \<Rightarrow>
                let failedAttempts = attemptsOr0 userData + 1
                in if failedAttempts \<ge> 5
                   then (LockedFor15Minutes,
                         updateShop (uid userData)
                           (\<lambda>d. d\<lparr>failedLoginAttempts := Some failedAttempts,
                                   lockedUntil := Some now, lockDuration := Some 15,
                                   lastFailedLoginAt := Some now\<rparr>) shops)
                   else (AttemptsRemaining (5 - failedAttempts),
                         updateShop (uid userData)
                           (\<lambda>d. d\<lparr>failedLoginAttempts := Some failedAttempts,
                                   lastFailedLoginAt := Some now\<rparr>) shops))
      else (FailedToSignIn e, shops))"

text \<open>The part of handleSubmit after a successful \<open>login\<close>.\<close>

definition submitSucceeded :: "timestamp \<Rightarrow> string \<Rightarrow> shopAccount list \<Rightarrow> loginResult \<times> shopAccount list" where
  "submitSucceeded now user shops =
     (case find (\<lambda>d. uid d = user) shops of
        None \<Rightarrow> (UserDataNotFound, shops)
      | Some userData \<Rightarrow>
          let shops' = updateShop user (\<lambda>d. d\<lparr>failedLoginAttempts := Some 0, lastLoginAt := Some now\<rparr>) shops
          in if status userData = Some ''pending'' then (PendingApproval, shops')
             else if status userData = Some ''frozen'' then (AccountFrozen, shops')
             else if status userData = Some ''rejected'' then (AccountRejected, shops')
             else (Dashboard, shops'))"

text \<open>handleSubmit of the login page, for the email typed and the answer the
  authentication service gives to the email and password typed.\<close>

definition loginSubmit :: "timestamp \<Rightarrow> string \<Rightarrow> signIn \<Rightarrow> shopAccount list \<Rightarrow> loginResult \<times> shopAccount list" where
  "loginSubmit now em answer shops =
     (case lockCheck now em shops of
        Some timeLeft \<Rightarrow> (TemporarilyLocked timeLeft, shops)
      | None \<Rightarrow>
          (case login now em answer shops of
             (Inr user, shops') \<Rightarrow> submitSucceeded now user shops'
           | (Inl e, shops') \<Rightarrow> submitFailed now em e shops'))"

text \<open>Consecutive failed attempts (wrong password), one at each of the times given.\<close>

definition failedAttemptsAt :: "string \<Rightarrow> timestamp list \<Rightarrow> shopAccount list \<Rightarrow> shopAccount list" where
  "failedAttemptsAt em ts shops =
     foldl (\<lambda>s now. snd (loginSubmit now em (Refused WrongPassword) s)) shops ts"

section \<open>Example data\<close>

definition apple :: stockItem where
  "apple = \<lparr>sid = ''s1'', shopId = ''shop1'', name = ''Apple'', price = 50, quantity = 2,
            quantityUnit = Some ''units'', updatedAt = 0\<rparr>"

definition rice :: stockItem where
  "rice = \<lparr>sid = ''s2'', shopId = ''shop1'', name = ''Rice'', price = 120, quantity = 10,
           quantityUnit = Some ''kg'', updatedAt = 0\<rparr>"

definition shelf :: "stockItem list" where
  "shelf = [apple, rice]"

definition line :: "string \<Rightarrow> rat \<Rightarrow> string \<Rightarrow> soldItem" where
  "line n q u = \<lparr>item_name = n, item_quantity = q, item_quantityUnit = Some u\<rparr>"

definition entry :: "string \<Rightarrow> rat \<Rightarrow> rat \<Rightarrow> string \<Rightarrow> formItem" where
  "entry n p q u = \<lparr>f_name = n, f_price = Numeric p, f_quantity = Numeric q, f_quantityUnit = Some u\<rparr>"

definition sale :: "soldItem list" where
  "sale = [line ''Apple'' 2 ''units'', line ''Rice'' (5 / 2) ''kg'']"

text \<open>Flour by the kilogram: 1.7 kg in stock and a line of 0.6 kg, as doubles.\<close>

definition flour :: stockItem where
  "flour = \<lparr>sid = ''s3'', shopId = ''shop1'', name = ''Flour'', price = 90,
             quantity = double_round (17 / 10), quantityUnit = Some ''kg'', updatedAt = 0\<rparr>"

definition flourSale :: "soldItem list" where
  "flourSale = [line ''Flour'' (double_round (3 / 5)) ''kg'']"

definition oversale :: "soldItem list" where
  "oversale = [line ''Apple'' 5 ''units'']"

definition receiptOf :: "soldItem list \<Rightarrow> receipt" where
  "receiptOf its = \<lparr>rid = ''r1'', rshopId = ''shop1'', ritems = its, rtotalAmount = TNumber 0,
                     rdiscount = 0, rtimestamp = 1\<rparr>"

definition afterSale :: "soldItem list \<Rightarrow> db" where
  "afterSale its = \<lparr>receipts = [receiptOf its], stock = updateStockQuantity 1 ''shop1'' its shelf\<rparr>"

definition counter :: "bool \<Rightarrow> formItem list \<Rightarrow> form" where
  "counter loaded its = \<lparr>form_cashierName = ''Ali'', form_items = its, form_discount = Numeric 0,
                          form_stockLoaded = loaded, form_stockItems = shelf\<rparr>"

definition basket :: "formItem list" where
  "basket = [entry ''Apple'' 50 2 ''units'', entry ''Rice'' 120 (5 / 2) ''kg'']"

definition shop0 :: db where
  "shop0 = \<lparr>receipts = [], stock = shelf\<rparr>"

text \<open>A page that loaded the stock when there were 10 apples, of which 2 are left.\<close>

definition staleCounter :: "formItem list \<Rightarrow> form" where
  "staleCounter its = \<lparr>form_cashierName = ''Ali'', form_items = its, form_discount = Numeric 0,
                        form_stockLoaded = True,
                        form_stockItems = [apple\<lparr>quantity := 10\<rparr>, rice]\<rparr>"


definition day :: "event list" where
  "day = [Submit 7 ''r2'' ''shop1'' (staleCounter [entry ''Apple'' 50 5 ''units'']), Delete 8 ''r2'']"

text \<open>An account as registerShop stores it (\<open>userEmail\<close>, \<open>accountStatus\<close>), the same
  with the lower-case \<open>email\<close> field the login page looks for, and one whose \<open>userEmail\<close>
  differs in case from the email typed.\<close>

definition registered :: shopAccount where
  "registered = \<lparr>uid = ''u1'', email = None, userEmail = Some ''ali@x.pk'',
                  failedLoginAttempts = None, lockedUntil = None, lockDuration = None,
                  accountStatus = Some ''active'', status = None, lockedAt = None,
                  lastLoginAt = None, lastFailedLoginAt = None\<rparr>"

definition registeredWithEmail :: shopAccount where
  "registeredWithEmail = registered\<lparr>email := Some ''ali@x.pk''\<rparr>"

definition carol :: shopAccount where
  "carol = registered\<lparr>uid := ''u2'', email := Some ''carol@x.pk'', userEmail := Some ''Carol@x.pk''\<rparr>"

definition carolLocked :: shopAccount where
  "carolLocked = carol\<lparr>failedLoginAttempts := Some 5, lockedUntil := Some 5000,
                        lockDuration := Some 15, lastFailedLoginAt := Some 5000\<rparr>"

section \<open>Lemmas on the numbers\<close>

lemma round_even_of_int: "round_even (of_int k) = k"
  by (simp add: round_even_def)

lemma round_even_ge: "of_int k \<le> m \<Longrightarrow> k \<le> round_even m"
proof -
  assume a: "of_int k \<le> m"
  then have "k \<le> \<lfloor>m\<rfloor>" by (simp add: le_floor_iff)
  then show ?thesis by (auto simp: round_even_def Let_def)
qed

lemma round_even_le: "m \<le> of_int k \<Longrightarrow> round_even m \<le> k"
proof -
  assume a: "m \<le> of_int k"
  show ?thesis
  proof (cases "m = of_int k")
    case True
    then show ?thesis by (simp add: round_even_of_int)
  next
    case False
    then have "m < of_int k" using a by simp
    then have "\<lfloor>m\<rfloor> < k" by (simp add: floor_less_iff)
    then show ?thesis by (auto simp: round_even_def Let_def)
  qed
qed

lemma expo_lower:
  assumes "x \<noteq> 0"
  shows "2 powi (expo x) \<le> \<bar>x\<bar>"
proof -
  obtain p q where pq: "quotient_of \<bar>x\<bar> = (p, q)" by (cases "quotient_of \<bar>x\<bar>")
  have q0: "0 < q" using pq by (rule quotient_of_denom_pos)
  have x: "\<bar>x\<bar> = of_int p / of_int q" using pq by (rule quotient_of_div)
  have "0 < \<bar>x\<bar>" using assms by simp
  then have p0: "0 < p" using x q0 by (simp add: zero_less_divide_iff)
  let ?e = "bitlen p - bitlen q"
  show ?thesis
  proof (cases "2 powi ?e \<le> \<bar>x\<bar>")
    case True
    then show ?thesis by (simp add: expo_def pq Let_def)
  next
    case False
    then have e: "expo x = ?e - 1" by (simp add: expo_def pq Let_def)
    have bp: "2 ^ nat (bitlen p - 1) \<le> p" using bitlen_bounds[OF p0] by simp
    have bq: "q < 2 ^ nat (bitlen q)" using bitlen_bounds[OF q0] by simp
    have bp1: "1 \<le> bitlen p" using p0 bitlen_eq_zero_iff[of p] bitlen_nonneg[of p] by linarith
    have bq0: "0 \<le> bitlen q" by (rule bitlen_nonneg)
    have "(2::rat) powi (?e - 1) = 2 powi (bitlen p - 1) / 2 powi (bitlen q)"
      using power_int_diff[of "2::rat" "bitlen p - 1" "bitlen q"] by (simp add: algebra_simps)
    also have "\<dots> = 2 ^ nat (bitlen p - 1) / 2 ^ nat (bitlen q)"
      using bp1 bq0 by (simp add: power_int_def)
    also have "\<dots> \<le> of_int p / of_int q"
    proof (rule frac_le)
      show "(0::rat) \<le> of_int p" using p0 by simp
      have "rat_of_int (2 ^ nat (bitlen p - 1)) \<le> of_int p" using bp by (simp only: of_int_le_iff)
      then show "(2::rat) ^ nat (bitlen p - 1) \<le> of_int p" by simp
      show "(0::rat) < of_int q" using q0 by simp
      have "rat_of_int q \<le> of_int (2 ^ nat (bitlen q))" using bq by (simp only: of_int_le_iff)
      then show "rat_of_int q \<le> 2 ^ nat (bitlen q)" by simp
    qed
    finally show ?thesis by (simp add: e x)
  qed
qed

text \<open>An integer below \<open>2^53\<close> in magnitude is a double.\<close>

lemma double_round_of_int:
  assumes "x = of_int k" and "\<bar>k\<bar> < 2 ^ 53"
  shows "double_round x = x"
proof (cases "x = 0")
  case True
  then show ?thesis by (simp add: double_round_def)
next
  case False
  let ?e = "expo x"
  have lo: "2 powi ?e \<le> \<bar>x\<bar>" using False by (rule expo_lower)
  have "\<bar>x\<bar> < 2 ^ 53"
  proof -
    have "rat_of_int \<bar>k\<bar> < of_int (2 ^ 53)" using assms(2) by (simp only: of_int_less_iff)
    then show ?thesis by (simp add: assms(1))
  qed
  then have lt53: "(2::rat) powi ?e < 2 powi 53" using lo by simp
  have e: "?e \<le> 52"
  proof (rule ccontr)
    assume "\<not> ?e \<le> 52"
    then have "53 \<le> ?e" by simp
    then have "(2::rat) powi 53 \<le> 2 powi ?e" by (intro power_int_increasing) simp_all
    then show False using lt53 by simp
  qed
  define n where "n = nat (52 - ?e)"
  have u: "(2::rat) powi (?e - 52) = 1 / 2 ^ n"
  proof -
    have "(2::rat) powi (?e - 52) = inverse (2 powi (52 - ?e))"
      using power_int_minus[of "2::rat" "52 - ?e"] by simp
    also have "(2::rat) powi (52 - ?e) = 2 ^ n" using e by (simp add: power_int_def n_def)
    finally show ?thesis by (simp add: inverse_eq_divide)
  qed
  have "x / (2 powi (?e - 52)) = x * 2 ^ n" unfolding u by simp
  also have "\<dots> = of_int (k * 2 ^ n)" by (simp add: assms(1))
  finally have "round_even (x / (2 powi (?e - 52))) = k * 2 ^ n"
    by (simp only: round_even_of_int)
  then have "double_round x = of_int (k * 2 ^ n) * (1 / 2 ^ n)"
    using False unfolding double_round_def Let_def u by simp
  also have "\<dots> = x" by (simp add: assms(1))
  finally show ?thesis .
qed

lemma double_round_pos:
  assumes "0 < x"
  shows "0 < double_round x"
proof -
  let ?u = "(2::rat) powi (expo x - 52)"
  have u0: "0 < ?u" by simp
  have lo: "2 powi (expo x) \<le> x" using expo_lower[of x] assms by simp
  have p: "(2::rat) powi (expo x) = 2 ^ 52 * ?u"
    using power_int_add[of "2::rat" "expo x - 52" 52] by simp
  have "1 * ?u \<le> 2 ^ 52 * ?u" using u0 by (intro mult_right_mono) simp_all
  also have "\<dots> \<le> x" using lo unfolding p .
  finally have "1 \<le> x / ?u" using u0 by (simp only: pos_le_divide_eq)
  then have "of_int 1 \<le> x / ?u" by simp
  then have "1 \<le> round_even (x / ?u)" by (rule round_even_ge)
  then have "0 < rat_of_int (round_even (x / ?u))" by simp
  then show ?thesis using assms u0 by (simp add: double_round_def Let_def)
qed

lemma double_round_neg:
  assumes "x < 0"
  shows "double_round x < 0"
proof -
  let ?u = "(2::rat) powi (expo x - 52)"
  have u0: "0 < ?u" by simp
  have lo: "2 powi (expo x) \<le> - x" using expo_lower[of x] assms by simp
  have p: "(2::rat) powi (expo x) = 2 ^ 52 * ?u"
    using power_int_add[of "2::rat" "expo x - 52" 52] by simp
  have "x \<le> - (2 ^ 52 * ?u)" using lo unfolding p by linarith
  also have "\<dots> \<le> - (1 * ?u)" using u0 by (intro le_imp_neg_le mult_right_mono) simp_all
  finally have "x \<le> (- 1) * ?u" by simp
  then have "x / ?u \<le> - 1" using u0 by (simp only: pos_divide_le_eq)
  then have "x / ?u \<le> of_int (- 1)" by simp
  then have "round_even (x / ?u) \<le> - 1" by (rule round_even_le)
  then have "rat_of_int (round_even (x / ?u)) < 0" by simp
  then show ?thesis using assms u0 by (simp add: double_round_def Let_def mult_neg_pos)
qed

lemma double_round_nonneg: "0 \<le> x \<Longrightarrow> 0 \<le> double_round x"
  using double_round_pos[of x] by (cases "x = 0") (simp_all add: double_round_def less_imp_le)

lemma whole_int: "whole x \<Longrightarrow> \<exists>k. x = of_int k \<and> \<bar>k\<bar> < 2 ^ 52"
proof -
  assume w: "whole x"
  then have x: "x = of_int \<lfloor>x\<rfloor>" and b: "\<bar>x\<bar> < 2 ^ 52" by (simp_all add: whole_def)
  have "rat_of_int \<bar>\<lfloor>x\<rfloor>\<bar> < of_int (2 ^ 52)" using x b by simp
  then have "\<bar>\<lfloor>x\<rfloor>\<bar> < 2 ^ 52" by (simp only: of_int_less_iff)
  then show ?thesis using x by blast
qed

lemma double_round_whole: "whole x \<Longrightarrow> double_round x = x"
proof -
  assume "whole x"
  then obtain k where k: "x = of_int k" "\<bar>k\<bar> < 2 ^ 52" using whole_int by blast
  then have "\<bar>k\<bar> < 2 ^ 53" by simp
  then show ?thesis using k(1) by (rule double_round_of_int[rotated])
qed

lemma js_sub_whole: "whole a \<Longrightarrow> whole b \<Longrightarrow> js_sub a b = a - b"
proof -
  assume "whole a" "whole b"
  then obtain k l where k: "a = of_int k" "\<bar>k\<bar> < 2 ^ 52" and l: "b = of_int l" "\<bar>l\<bar> < 2 ^ 52"
    using whole_int by blast
  have "a - b = of_int (k - l)" "\<bar>k - l\<bar> < 2 ^ 53" using k l by simp_all
  then show ?thesis unfolding js_sub_def by (rule double_round_of_int)
qed

lemma js_add_whole: "whole a \<Longrightarrow> whole b \<Longrightarrow> js_add a b = a + b"
proof -
  assume "whole a" "whole b"
  then obtain k l where k: "a = of_int k" "\<bar>k\<bar> < 2 ^ 52" and l: "b = of_int l" "\<bar>l\<bar> < 2 ^ 52"
    using whole_int by blast
  have "a + b = of_int (k + l)" "\<bar>k + l\<bar> < 2 ^ 53" using k l by simp_all
  then show ?thesis unfolding js_add_def by (rule double_round_of_int)
qed

text \<open>Subtracting and adding back a whole number gives the whole number one started
  from.\<close>

lemma js_back_whole: "whole q \<Longrightarrow> whole d \<Longrightarrow> js_add (js_sub q d) d = q"
proof -
  assume q: "whole q" and d: "whole d"
  have "js_add (js_sub q d) d = double_round (q - d + d)"
    by (simp add: js_add_def js_sub_whole[OF q d])
  also have "\<dots> = q" using double_round_whole[OF q] by simp
  finally show ?thesis .
qed

lemma js_sub_nonneg: "d \<le> q \<Longrightarrow> 0 \<le> js_sub q d"
  unfolding js_sub_def by (rule double_round_nonneg) simp

lemma js_sub_neg: "q < d \<Longrightarrow> js_sub q d < 0"
  unfolding js_sub_def by (rule double_round_neg) simp

lemma js_add_nonneg: "0 \<le> a \<Longrightarrow> 0 \<le> b \<Longrightarrow> 0 \<le> js_add a b"
  unfolding js_add_def by (rule double_round_nonneg) simp

lemma js_mul_nonneg: "0 \<le> a \<Longrightarrow> 0 \<le> b \<Longrightarrow> 0 \<le> js_mul a b"
  unfolding js_mul_def by (rule double_round_nonneg) simp

section \<open>Lemmas on the stock reconciler\<close>

lemma find_Some_holds: "find P xs = Some x \<Longrightarrow> P x"
  by (induction xs) (auto split: if_splits)

lemma find_Some_mem: "find P xs = Some x \<Longrightarrow> x \<in> set xs"
  by (induction xs) (auto split: if_splits)

lemma find_map_pres:
  "(\<And>x. P (G x) = P x) \<Longrightarrow> find P (map G xs) = map_option G (find P xs)"
  by (induction xs) auto

lemma docAfter_Cons:
  "docAfter now (u # us) d =
     docAfter now us (case u of None \<Rightarrow> d
        | Some (i, q) \<Rightarrow> if sid d = i then d\<lparr>quantity := q, updatedAt := now\<rparr> else d)"
  unfolding docAfter_def by simp

lemma applyUpdates_Cons:
  "applyUpdates now (u # us) store =
     applyUpdates now us (case u of None \<Rightarrow> store | Some (i, q) \<Rightarrow> updateStockItem now i q store)"
  unfolding applyUpdates_def by simp

lemma applyUpdates_map: "applyUpdates now us store = map (docAfter now us) store"
proof (induction us arbitrary: store)
  case Nil
  show ?case by (simp add: applyUpdates_def docAfter_def)
next
  case (Cons u us)
  show ?case
  proof (cases u)
    case None
    then show ?thesis by (simp add: applyUpdates_Cons docAfter_Cons Cons.IH)
  next
    case (Some p)
    obtain i q where p: "p = (i, q)" by (cases p)
    show ?thesis
      by (simp add: Some p applyUpdates_Cons docAfter_Cons Cons.IH updateStockItem_def)
  qed
qed

lemma docAfter_snoc:
  "docAfter now (us @ [u]) d =
     (case u of None \<Rightarrow> docAfter now us d
      | Some (i, q) \<Rightarrow> if sid (docAfter now us d) = i
                        then (docAfter now us d)\<lparr>quantity := q, updatedAt := now\<rparr>
                        else docAfter now us d)"
  unfolding docAfter_def by simp

lemma docAfter_fields:
  "sid (docAfter now us d) = sid d \<and> shopId (docAfter now us d) = shopId d \<and>
   name (docAfter now us d) = name d \<and> price (docAfter now us d) = price d \<and>
   quantityUnit (docAfter now us d) = quantityUnit d"
  by (induction us rule: rev_induct) (auto simp: docAfter_snoc docAfter_def split: option.splits)

lemma docAfter_untouched:
  "\<forall>q. Some (sid d, q) \<notin> set us \<Longrightarrow> docAfter now us d = d"
proof (induction us rule: rev_induct)
  case Nil
  show ?case by (simp add: docAfter_def)
next
  case (snoc u us)
  then have IH: "docAfter now us d = d" by auto
  from snoc.prems have "\<forall>q. u \<noteq> Some (sid d, q)" by auto
  then show ?case by (cases u) (auto simp: docAfter_snoc IH)
qed

lemma updateStockQuantity_map:
  "updateStockQuantity now shop its store =
     map (docAfter now (map (soldUpdate (stockQuery shop store)) its)) store"
  by (simp add: updateStockQuantity_def applyUpdates_map)

lemma restoreStockQuantity_map:
  "restoreStockQuantity now shop its store =
     map (docAfter now (map (restoreUpdate (stockQuery shop store)) its)) store"
  by (simp add: restoreStockQuantity_def applyUpdates_map)

lemma soldUpdate_matched:
  "soldUpdate SI l =
     map_option (\<lambda>m. (sid m, max 0 (js_sub (quantity m) (item_quantity l)))) (matchedStock SI l)"
  by (simp add: soldUpdate_def matchedStock_def split: option.splits)

lemma restoreUpdate_matched:
  "restoreUpdate SI l =
     map_option (\<lambda>m. (sid m, js_add (quantity m) (item_quantity l))) (matchedStock SI l)"
  by (simp add: restoreUpdate_def matchedStock_def split: option.splits)

lemma matchedStock_mem:
  "matchedStock SI l = Some m \<Longrightarrow> m \<in> set SI \<and> name m = item_name l \<and> unitsMatch l m"
  by (auto simp: matchedStock_def split: option.splits if_splits
           dest: find_Some_holds find_Some_mem)

lemma stockQuery_subset: "set (stockQuery shop store) \<subseteq> set store"
  by (auto simp: stockQuery_def)

lemma distinct_sid_eq:
  "distinct (map sid store) \<Longrightarrow> a \<in> set store \<Longrightarrow> b \<in> set store \<Longrightarrow> sid a = sid b \<Longrightarrow> a = b"
  by (meson distinct_map inj_onD)

lemma matched_same_doc:
  assumes "distinct (map sid store)" and "d \<in> set store"
    and "matchedStock (stockQuery shop store) l = Some m" and "sid m = sid d"
  shows "m = d"
  using assms distinct_sid_eq matchedStock_mem stockQuery_subset by blast

lemma quantity_docAfter_last:
  assumes "\<And>l. l \<in> set its \<Longrightarrow> (\<exists>q. f l = Some (sid d, q)) = T l"
  shows "quantity (docAfter now (map f its) d) =
           (case find T (rev its) of None \<Rightarrow> quantity d | Some l \<Rightarrow> snd (the (f l)))"
  using assms
proof (induction its rule: rev_induct)
  case Nil
  show ?case by (simp add: docAfter_def)
next
  case (snoc l its)
  have IH: "quantity (docAfter now (map f its) d) =
           (case find T (rev its) of None \<Rightarrow> quantity d | Some l \<Rightarrow> snd (the (f l)))"
    using snoc by simp
  have T: "(\<exists>q. f l = Some (sid d, q)) = T l" using snoc.prems by simp
  have sidd: "sid (docAfter now (map f its) d) = sid d" by (simp add: docAfter_fields)
  show ?case
  proof (cases "T l")
    case True
    then obtain q where "f l = Some (sid d, q)" using T by blast
    then show ?thesis using True by (simp add: docAfter_snoc sidd)
  next
    case False
    then have "\<forall>q. f l \<noteq> Some (sid d, q)" using T by blast
    then show ?thesis using False IH
      by (cases "f l") (auto simp: docAfter_snoc sidd)
  qed
qed

lemma sold_targets:
  assumes "distinct (map sid store)" and "d \<in> set store"
  shows "(\<exists>q. soldUpdate (stockQuery shop store) l = Some (sid d, q)) =
         (matchedStock (stockQuery shop store) l = Some d)"
  using matched_same_doc[OF assms] by (auto simp: soldUpdate_matched)

lemma quantity_after_sale:
  assumes "distinct (map sid store)" and "d \<in> set store"
  shows "quantity (docAfter now (map (soldUpdate (stockQuery shop store)) its) d) =
           (case find (\<lambda>l. matchedStock (stockQuery shop store) l = Some d) (rev its) of
              None \<Rightarrow> quantity d
            | Some l \<Rightarrow> max 0 (js_sub (quantity d) (item_quantity l)))"
proof -
  let ?T = "\<lambda>l. matchedStock (stockQuery shop store) l = Some d"
  have "quantity (docAfter now (map (soldUpdate (stockQuery shop store)) its) d) =
          (case find ?T (rev its) of None \<Rightarrow> quantity d
           | Some l \<Rightarrow> snd (the (soldUpdate (stockQuery shop store) l)))"
    by (rule quantity_docAfter_last) (rule sold_targets[OF assms])
  also have "\<dots> = (case find ?T (rev its) of None \<Rightarrow> quantity d
           | Some l \<Rightarrow> max 0 (js_sub (quantity d) (item_quantity l)))"
    by (cases "find ?T (rev its)") (auto simp: soldUpdate_matched dest: find_Some_holds)
  finally show ?thesis .
qed

lemma matchedStock_docAfter:
  "matchedStock (stockQuery shop (map (docAfter now us) store)) l =
     map_option (docAfter now us) (matchedStock (stockQuery shop store) l)"
proof -
  have q: "stockQuery shop (map (docAfter now us) store) = map (docAfter now us) (stockQuery shop store)"
    by (simp add: stockQuery_def filter_map comp_def docAfter_fields)
  have f: "find (\<lambda>item. name item = item_name l) (map (docAfter now us) (stockQuery shop store)) =
           map_option (docAfter now us) (find (\<lambda>item. name item = item_name l) (stockQuery shop store))"
    by (rule find_map_pres) (simp add: docAfter_fields)
  show ?thesis
    unfolding q matchedStock_def f
    by (cases "find (\<lambda>item. name item = item_name l) (stockQuery shop store)")
       (simp_all add: unitsMatch_def docAfter_fields)
qed

lemma roundtrip_doc:
  assumes dist: "distinct (map sid store)"
    and d: "d \<in> set store"
    and le: "\<And>l m. l \<in> set its \<Longrightarrow> matchedStock (stockQuery shop store) l = Some m \<Longrightarrow>
          restoresExactly (quantity m) (item_quantity l)"
  shows "quantity (docAfter now' (map (restoreUpdate (stockQuery shop (map (docAfter now (map (soldUpdate (stockQuery shop store)) its)) store))) its)
                    (docAfter now (map (soldUpdate (stockQuery shop store)) its) d)) = quantity d"
proof -
  let ?SI = "stockQuery shop store"
  let ?us = "map (soldUpdate ?SI) its"
  let ?G = "docAfter now ?us"
  let ?SI1 = "stockQuery shop (map ?G store)"
  let ?T = "\<lambda>l. matchedStock ?SI l = Some d"
  have same: "\<And>l m. matchedStock ?SI l = Some m \<Longrightarrow> sid m = sid d \<Longrightarrow> m = d"
    using matched_same_doc[OF dist d] by blast
  have R: "\<And>l. (\<exists>q. restoreUpdate ?SI1 l = Some (sid (?G d), q)) = ?T l"
    using same by (auto simp: restoreUpdate_matched matchedStock_docAfter docAfter_fields)
  have qU: "quantity (?G d) = (case find ?T (rev its) of None \<Rightarrow> quantity d
               | Some l \<Rightarrow> max 0 (js_sub (quantity d) (item_quantity l)))"
    by (rule quantity_after_sale[OF dist d])
  have qR: "quantity (docAfter now' (map (restoreUpdate ?SI1) its) (?G d)) =
            (case find ?T (rev its) of None \<Rightarrow> quantity (?G d)
               | Some l \<Rightarrow> snd (the (restoreUpdate ?SI1 l)))"
    by (rule quantity_docAfter_last) (rule R)
  show ?thesis
  proof (cases "find ?T (rev its)")
    case None
    then show ?thesis using qU qR by simp
  next
    case (Some l)
    then have Tl: "?T l" and lin: "l \<in> set its"
      by (auto dest: find_Some_holds find_Some_mem)
    have le': "item_quantity l \<le> quantity d"
      and rt: "js_add (js_sub (quantity d) (item_quantity l)) (item_quantity l) = quantity d"
      using le[OF lin Tl] by (simp_all add: restoresExactly_def)
    have "quantity (?G d) = max 0 (js_sub (quantity d) (item_quantity l))"
      using qU Some by simp
    then have "quantity (?G d) = js_sub (quantity d) (item_quantity l)"
      using js_sub_nonneg[OF le'] by simp
    moreover have "snd (the (restoreUpdate ?SI1 l)) = js_add (quantity (?G d)) (item_quantity l)"
      using Tl by (simp add: restoreUpdate_matched matchedStock_docAfter)
    ultimately show ?thesis using qR Some rt by simp
  qed
qed

lemma roundtrip_quantities:
  assumes dist: "distinct (map sid store)"
    and le: "\<And>l m. l \<in> set its \<Longrightarrow> matchedStock (stockQuery shop store) l = Some m \<Longrightarrow>
          restoresExactly (quantity m) (item_quantity l)"
  shows "map quantity (restoreStockQuantity now' shop its (updateStockQuantity now shop its store)) = map quantity store"
proof -
  have "map quantity (restoreStockQuantity now' shop its (updateStockQuantity now shop its store))
      = map (\<lambda>d. quantity (docAfter now' (map (restoreUpdate (stockQuery shop (map (docAfter now (map (soldUpdate (stockQuery shop store)) its)) store))) its)
                    (docAfter now (map (soldUpdate (stockQuery shop store)) its) d))) store"
    by (simp add: restoreStockQuantity_map updateStockQuantity_map comp_def)
  also have "\<dots> = map quantity store"
    by (rule map_cong[OF refl]) (rule roundtrip_doc[OF dist _ le])
  finally show ?thesis .
qed

lemma restore_targets:
  assumes "distinct (map sid store)" and "d \<in> set store"
  shows "(\<exists>q. restoreUpdate (stockQuery shop store) l = Some (sid d, q)) =
         (matchedStock (stockQuery shop store) l = Some d)"
  using matched_same_doc[OF assms] by (auto simp: restoreUpdate_matched)

lemma unmatched_untouched:
  assumes dist: "distinct (map sid store)" and d: "d \<in> set store"
    and nm: "\<And>l. l \<in> set its \<Longrightarrow> matchedStock (stockQuery shop store) l \<noteq> Some d"
  shows "docAfter now (map (soldUpdate (stockQuery shop store)) its) d = d \<and>
         docAfter now (map (restoreUpdate (stockQuery shop store)) its) d = d"
proof
  have "\<forall>q. Some (sid d, q) \<notin> set (map (soldUpdate (stockQuery shop store)) its)"
  proof (intro allI notI)
    fix q assume "Some (sid d, q) \<in> set (map (soldUpdate (stockQuery shop store)) its)"
    then obtain l where l: "l \<in> set its" "soldUpdate (stockQuery shop store) l = Some (sid d, q)"
      by auto
    then have "matchedStock (stockQuery shop store) l = Some d"
      using sold_targets[OF dist d, of shop l] by blast
    then show False using nm[OF l(1)] by simp
  qed
  then show "docAfter now (map (soldUpdate (stockQuery shop store)) its) d = d"
    by (rule docAfter_untouched)
next
  have "\<forall>q. Some (sid d, q) \<notin> set (map (restoreUpdate (stockQuery shop store)) its)"
  proof (intro allI notI)
    fix q assume "Some (sid d, q) \<in> set (map (restoreUpdate (stockQuery shop store)) its)"
    then obtain l where l: "l \<in> set its" "restoreUpdate (stockQuery shop store) l = Some (sid d, q)"
      by auto
    then have "matchedStock (stockQuery shop store) l = Some d"
      using restore_targets[OF dist d, of shop l] by blast
    then show False using nm[OF l(1)] by simp
  qed
  then show "docAfter now (map (restoreUpdate (stockQuery shop store)) its) d = d"
    by (rule docAfter_untouched)
qed


lemma restoresExactly_whole: "whole q \<Longrightarrow> whole d \<Longrightarrow> d \<le> q \<Longrightarrow> restoresExactly q d"
  by (simp add: restoresExactly_def js_back_whole)

section \<open>Claims on the stock reconciler\<close>



text \<open>C7. A line whose unit is present and differs from the unit of the stock item found
  for its name issues no write, on save and on delete; a stock item for which every line
  that names it is such a line is left as it was, quantity included.\<close>

theorem unit_mismatch_skips:
  assumes "distinct (map sid store)" and "i < length store"
    and "\<forall>l \<in> set its. find (\<lambda>item. name item = item_name l) (stockQuery shop store) = Some (store ! i)
           \<longrightarrow> \<not> falsy (item_quantityUnit l) \<and> item_quantityUnit l \<noteq> quantityUnit (store ! i)"
  shows "(\<forall>l \<in> set its. find (\<lambda>item. name item = item_name l) (stockQuery shop store) = Some (store ! i)
           \<longrightarrow> soldUpdate (stockQuery shop store) l = None
               \<and> restoreUpdate (stockQuery shop store) l = None)
       \<and> updateStockQuantity now shop its store ! i = store ! i
       \<and> restoreStockQuantity now shop its store ! i = store ! i"
proof -
  let ?SI = "stockQuery shop store"
  have d: "store ! i \<in> set store" using assms(2) by simp
  have skip: "\<And>l. l \<in> set its \<Longrightarrow> find (\<lambda>item. name item = item_name l) ?SI = Some (store ! i)
       \<Longrightarrow> \<not> unitsMatch l (store ! i)"
    using assms(3) by (auto simp: unitsMatch_def)
  have nm: "\<And>l. l \<in> set its \<Longrightarrow> matchedStock ?SI l \<noteq> Some (store ! i)"
  proof
    fix l assume l: "l \<in> set its" and m: "matchedStock ?SI l = Some (store ! i)"
    then have "find (\<lambda>item. name item = item_name l) ?SI = Some (store ! i)"
      by (auto simp: matchedStock_def split: option.splits if_splits)
    then show False using skip[OF l] matchedStock_mem[OF m] by simp
  qed
  have a: "\<forall>l \<in> set its. find (\<lambda>item. name item = item_name l) ?SI = Some (store ! i)
           \<longrightarrow> soldUpdate ?SI l = None \<and> restoreUpdate ?SI l = None"
    using skip by (auto simp: soldUpdate_def restoreUpdate_def)
  have b: "updateStockQuantity now shop its store ! i = store ! i"
    using assms(2) unmatched_untouched[OF assms(1) d nm] by (simp add: updateStockQuantity_map)
  have c: "restoreStockQuantity now shop its store ! i = store ! i"
    using assms(2) unmatched_untouched[OF assms(1) d nm] by (simp add: restoreStockQuantity_map)
  show ?thesis using a b c by blast
qed

theorem unit_mismatch_skips_witness:
  "distinct (map sid shelf) \<and> 0 < length shelf
   \<and> find (\<lambda>item. name item = item_name (line ''Apple'' 1 ''kg'')) (stockQuery ''shop1'' shelf) = Some (shelf ! 0)
   \<and> \<not> falsy (item_quantityUnit (line ''Apple'' 1 ''kg''))
   \<and> item_quantityUnit (line ''Apple'' 1 ''kg'') \<noteq> quantityUnit (shelf ! 0)
   \<and> soldUpdate (stockQuery ''shop1'' shelf) (line ''Apple'' 1 ''kg'') = None
   \<and> restoreUpdate (stockQuery ''shop1'' shelf) (line ''Apple'' 1 ''kg'') = None
   \<and> updateStockQuantity 7 ''shop1'' [line ''Apple'' 1 ''kg''] shelf ! 0 = apple
   \<and> restoreStockQuantity 7 ''shop1'' [line ''Apple'' 1 ''kg''] shelf ! 0 = apple"
proof -
  have h1: "distinct (map sid shelf)"
    by (simp add: shelf_def apple_def rice_def)
  have h2: "0 < length shelf" by (simp add: shelf_def)
  have f: "find (\<lambda>item. name item = item_name (line ''Apple'' 1 ''kg'')) (stockQuery ''shop1'' shelf) = Some (shelf ! 0)"
    by (simp add: shelf_def apple_def rice_def line_def stockQuery_def)
  have u: "\<not> falsy (item_quantityUnit (line ''Apple'' 1 ''kg''))"
          "item_quantityUnit (line ''Apple'' 1 ''kg'') \<noteq> quantityUnit (shelf ! 0)"
    by (simp_all add: shelf_def apple_def line_def falsy_def)
  have h3: "\<forall>l \<in> set [line ''Apple'' 1 ''kg''].
       find (\<lambda>item. name item = item_name l) (stockQuery ''shop1'' shelf) = Some (shelf ! 0)
         \<longrightarrow> \<not> falsy (item_quantityUnit l) \<and> item_quantityUnit l \<noteq> quantityUnit (shelf ! 0)"
    using u by simp
  have s0: "shelf ! 0 = apple" by (simp add: shelf_def)
  show ?thesis
    using unit_mismatch_skips[OF h1 h2 h3, of 7] h1 h2 f u s0 by simp
qed

text \<open>C9. A stock item whose name is the name of no line of the receipt is left as it
  was, in every field, by updateStockQuantity and by restoreStockQuantity, which neither
  add nor remove documents: only stock items named by a line are written.\<close>

theorem unnamed_stock_unchanged:
  assumes "distinct (map sid store)" and "i < length store"
    and "name (store ! i) \<notin> item_name ` set its"
  shows "updateStockQuantity now shop its store ! i = store ! i
       \<and> restoreStockQuantity now shop its store ! i = store ! i
       \<and> length (updateStockQuantity now shop its store) = length store
       \<and> length (restoreStockQuantity now shop its store) = length store"
proof -
  have d: "store ! i \<in> set store" using assms(2) by simp
  have nm: "\<And>l. l \<in> set its \<Longrightarrow> matchedStock (stockQuery shop store) l \<noteq> Some (store ! i)"
    using assms(3) matchedStock_mem by fastforce
  show ?thesis
    using assms(2) unmatched_untouched[OF assms(1) d nm]
    by (simp add: updateStockQuantity_map restoreStockQuantity_map)
qed

theorem unnamed_stock_unchanged_witness:
  "distinct (map sid shelf) \<and> 1 < length shelf \<and> name (shelf ! 1) \<notin> item_name ` set oversale
   \<and> updateStockQuantity 7 ''shop1'' oversale shelf ! 1 = rice
   \<and> restoreStockQuantity 7 ''shop1'' oversale shelf ! 1 = rice
   \<and> updateStockQuantity 7 ''shop1'' oversale shelf ! 0 \<noteq> apple"
proof -
  have h1: "distinct (map sid shelf)"
    by (simp add: shelf_def apple_def rice_def)
  have h2: "1 < length shelf" by (simp add: shelf_def)
  have h3: "name (shelf ! 1) \<notin> item_name ` set oversale"
    by (simp add: shelf_def rice_def oversale_def line_def)
  have s1: "shelf ! 1 = rice" by (simp add: shelf_def)
  have w: "updateStockQuantity 7 ''shop1'' oversale shelf ! 0 \<noteq> apple"
    by (simp add: updateStockQuantity_def applyUpdates_def updateStockItem_def soldUpdate_def
        unitsMatch_def falsy_def stockQuery_def shelf_def apple_def rice_def oversale_def line_def)
  show ?thesis
    using unnamed_stock_unchanged[OF h1 h2 h3, of 7 "''shop1''"] h1 h2 h3 s1 w by simp
qed

section \<open>A receipt saved and deleted\<close>

lemma handleSubmit_Inr:
  assumes "handleSubmit lc now newId shop f s = Inr s1"
  shows "checkItems (form_items f) = None
       \<and> (\<exists>rd. receipts s1 = receipts s @ [rd] \<and> rid rd = newId \<and> rshopId rd = shop
                \<and> ritems rd = map receiptLine (form_items f))
       \<and> stock s1 = updateStockQuantity now shop (map soldLine (form_items f)) (stock s)"
  using assms
  by (auto simp: handleSubmit_def Let_def split: if_splits option.splits validation.splits)

lemma handleSubmit_accepts:
  assumes "\<not> blank (form_cashierName f)" and "checkItems (form_items f) = None"
    and "validateInventory lc (form_stockLoaded f) (form_stockItems f) (form_items f) = Valid"
  shows "\<exists>s1. handleSubmit lc now newId shop f s = Inr s1
              \<and> length (receipts s1) = length (receipts s) + 1
              \<and> stock s1 = updateStockQuantity now shop (map soldLine (form_items f)) (stock s)"
  using assms by (simp add: handleSubmit_def Let_def)

lemma find_fresh_snoc:
  assumes "\<forall>r \<in> set rs. rid r \<noteq> i" and "rid rd = i"
  shows "find (\<lambda>x. rid x = i) (rs @ [rd]) = Some rd \<and> filter (\<lambda>x. rid x \<noteq> i) (rs @ [rd]) = rs"
  using assms by (induction rs) auto

lemma soldLine_receiptLine: "\<not> falsy (f_quantityUnit item) \<Longrightarrow> soldLine item = receiptLine item"
  by (simp add: soldLine_def receiptLine_def)

text \<open>C1 (as amended). A receipt is saved by the form and then deleted. When every row of
  the form has its unit filled in and, for every line and the stock item it is matched
  to, the save clamps nothing and adding the line's quantity back to the difference
  gives the stock quantity again in the arithmetic of the program, then after the
  deletion every stock quantity has its value from before the sale. Lines and stock
  items with whole-number quantities, the line not above the stock, are such.\<close>

theorem receipt_roundtrip:
  assumes "distinct (map sid (stock s))"
    and "\<forall>r \<in> set (receipts s). rid r \<noteq> newId"
    and "\<forall>item \<in> set (form_items f). \<not> falsy (f_quantityUnit item)"
    and "\<forall>item \<in> set (form_items f). \<forall>m.
           matchedStock (stockQuery shop (stock s)) (receiptLine item) = Some m
           \<longrightarrow> restoresExactly (quantity m) (item_quantity (receiptLine item))"
    and "handleSubmit lc now newId shop f s = Inr s1"
  shows "(\<exists>s2. deleteReceipt now' newId s1 = Inr s2
              \<and> map quantity (stock s2) = map quantity (stock s)
              \<and> receipts s2 = receipts s)
       \<and> (\<forall>q d. whole q \<and> whole d \<and> d \<le> q \<longrightarrow> restoresExactly q d)"
proof
  let ?its = "map receiptLine (form_items f)"
  obtain rd where rd: "receipts s1 = receipts s @ [rd]" "rid rd = newId" "rshopId rd = shop"
      "ritems rd = ?its"
    and st: "stock s1 = updateStockQuantity now shop (map soldLine (form_items f)) (stock s)"
    using handleSubmit_Inr[OF assms(5)] by blast
  have "map soldLine (form_items f) = ?its"
    using assms(3) by (intro map_cong[OF refl]) (simp add: soldLine_receiptLine)
  then have st': "stock s1 = updateStockQuantity now shop ?its (stock s)" using st by (simp only:)
  have f: "find (\<lambda>x. rid x = newId) (receipts s1) = Some rd"
    and fl: "filter (\<lambda>x. rid x \<noteq> newId) (receipts s1) = receipts s"
    using find_fresh_snoc[OF assms(2) rd(2)] rd(1) by simp_all
  have le: "\<And>l m. l \<in> set ?its \<Longrightarrow> matchedStock (stockQuery shop (stock s)) l = Some m
       \<Longrightarrow> restoresExactly (quantity m) (item_quantity l)"
    using assms(4) by auto
  have q: "map quantity (restoreStockQuantity now' shop ?its (stock s1)) = map quantity (stock s)"
    unfolding st' by (rule roundtrip_quantities[OF assms(1) le])
  show "\<exists>s2. deleteReceipt now' newId s1 = Inr s2
              \<and> map quantity (stock s2) = map quantity (stock s)
              \<and> receipts s2 = receipts s"
  proof (cases "?its = []")
    case True
    then have "stock s1 = stock s"
      using st' by (simp add: updateStockQuantity_def applyUpdates_def)
    then show ?thesis using True f fl rd by (simp add: deleteReceipt_def)
  next
    case False
    then show ?thesis using f fl rd q by (simp add: deleteReceipt_def)
  qed
next
  show "\<forall>q d. whole q \<and> whole d \<and> d \<le> q \<longrightarrow> restoresExactly q d"
    by (simp add: restoresExactly_whole)
qed

lemmas blank_eval = blank.simps leadingSpace_def whiteSpace_def

lemmas whole_eval = double_round_whole js_sub_whole js_add_whole whole_def

theorem receipt_roundtrip_witness:
  "distinct (map sid (stock shop0)) \<and> receipts shop0 = [] \<and> map quantity (stock shop0) = [2, 10]
   \<and> whole 2 \<and> restoresExactly 2 2 \<and> restoresExactly 10 (5 / 2)
   \<and> (\<exists>s1 s2. handleSubmit toLowerCase 7 ''r2'' ''shop1'' (counter True basket) shop0 = Inr s1
          \<and> map quantity (stock s1) = [0, 15 / 2]
          \<and> deleteReceipt 8 ''r2'' s1 = Inr s2
          \<and> map quantity (stock s2) = [2, 10] \<and> receipts s2 = [])"
proof -
  let ?f = "counter True basket"
  have dr: "double_round (5 / 2) = 5 / 2" by code_simp
  have r1: "restoresExactly 2 2" by (simp add: restoresExactly_whole whole_def)
  have r2: "restoresExactly 10 (5 / 2)" by code_simp
  have j: "js_sub 10 (5 / 2) = 15 / 2" by code_simp
  have h1: "distinct (map sid (stock shop0))"
    by (simp add: shop0_def shelf_def apple_def rice_def)
  have h2: "\<forall>r \<in> set (receipts shop0). rid r \<noteq> ''r2''" by (simp add: shop0_def)
  have h3: "\<forall>item \<in> set (form_items ?f). \<not> falsy (f_quantityUnit item)"
    by (simp add: counter_def basket_def entry_def falsy_def)
  have h4: "\<forall>item \<in> set (form_items ?f). \<forall>m.
           matchedStock (stockQuery ''shop1'' (stock shop0)) (receiptLine item) = Some m
           \<longrightarrow> restoresExactly (quantity m) (item_quantity (receiptLine item))"
    using r1 r2
    by (simp add: counter_def basket_def entry_def receiptLine_def shop0_def shelf_def apple_def
        rice_def stockQuery_def matchedStock_def unitsMatch_def falsy_def dr whole_eval)
  have b: "\<not> blank (form_cashierName ?f)" by (simp add: counter_def blank_eval)
  have c: "checkItems (form_items ?f) = None"
    by (simp add: counter_def basket_def entry_def checkItem_def blank_eval isInteger_def dr whole_eval)
  have v: "validateInventory toLowerCase (form_stockLoaded ?f) (form_stockItems ?f) (form_items ?f) = Valid"
    by (simp add: counter_def basket_def entry_def validateInventory_def inventoryCheck_def
        toLowerCase_def toLowerChar_def shelf_def apple_def rice_def dr whole_eval)
  obtain s1 where s1: "handleSubmit toLowerCase 7 ''r2'' ''shop1'' ?f shop0 = Inr s1"
    and st: "stock s1 = updateStockQuantity 7 ''shop1'' (map soldLine (form_items ?f)) (stock shop0)"
    using handleSubmit_accepts[OF b c v] by blast
  have q1: "map quantity (stock s1) = [0, 15 / 2]"
    unfolding st
    by (simp add: counter_def basket_def entry_def soldLine_def shop0_def shelf_def apple_def rice_def
        updateStockQuantity_def applyUpdates_def updateStockItem_def soldUpdate_def
        unitsMatch_def falsy_def stockQuery_def dr j whole_eval)
  obtain s2 where "deleteReceipt 8 ''r2'' s1 = Inr s2"
    "map quantity (stock s2) = map quantity (stock shop0)" "receipts s2 = receipts shop0"
    using receipt_roundtrip[OF h1 h2 h3 h4 s1, of 8] by blast
  moreover have "map quantity (stock shop0) = [2, 10]" "receipts shop0 = []"
    by (simp_all add: shop0_def shelf_def apple_def rice_def)
  ultimately show ?thesis using h1 r1 r2 s1 q1 by (auto simp: whole_def)
qed

text \<open>C1 as stated fails in two ways. When a line asks for more than the stock holds, the
  save clamps 2 - 5 to 0, the delete adds 5, and the stock item that held 2 holds 5. And
  with nothing clamped, 1.7 kg of flour less a line of 0.6 kg and the 0.6 kg added back
  is the next double above 1.7 (1.7000000000000002).\<close>

theorem receipt_roundtrip_counterexample:
  "matchedStock (stockQuery ''shop1'' shelf) (line ''Apple'' 5 ''units'') = Some apple
   \<and> oversale = [line ''Apple'' 5 ''units'']
   \<and> map quantity shelf = [2, 10]
   \<and> map quantity (updateStockQuantity 1 ''shop1'' oversale shelf) = [0, 10]
   \<and> map quantity (restoreStockQuantity 2 ''shop1'' oversale (updateStockQuantity 1 ''shop1'' oversale shelf))
       = [5, 10]
   \<and> deleteReceipt 2 ''r1'' (afterSale oversale)
       = Inr \<lparr>receipts = [], stock = [apple\<lparr>quantity := 5, updatedAt := 2\<rparr>, rice]\<rparr>
   \<and> matchedStock (stockQuery ''shop1'' [flour]) (line ''Flour'' (double_round (3 / 5)) ''kg'') = Some flour
   \<and> flourSale = [line ''Flour'' (double_round (3 / 5)) ''kg'']
   \<and> double_round (3 / 5) \<le> quantity flour
   \<and> 0 < js_sub (quantity flour) (double_round (3 / 5))
   \<and> map quantity (restoreStockQuantity 2 ''shop1'' flourSale (updateStockQuantity 1 ''shop1'' flourSale [flour]))
       = [quantity flour + 1 / 2 ^ 52]"
proof -
  have a: "js_sub 2 5 = - 3" "js_add 0 5 = 5" by (simp_all add: whole_eval)
  have f1: "double_round (3 / 5) \<le> double_round (17 / 10)" by code_simp
  have f2: "0 < js_sub (double_round (17 / 10)) (double_round (3 / 5))" by code_simp
  have f3: "js_add (js_sub (double_round (17 / 10)) (double_round (3 / 5))) (double_round (3 / 5))
              = double_round (17 / 10) + 1 / 2 ^ 52" by code_simp
  have m: "max 0 (js_sub (double_round (17 / 10)) (double_round (3 / 5)))
             = js_sub (double_round (17 / 10)) (double_round (3 / 5))"
    using f2 by simp
  show ?thesis
    using f1 f2
    by (simp add: afterSale_def receiptOf_def oversale_def flourSale_def line_def shelf_def
        apple_def rice_def flour_def
        deleteReceipt_def updateStockQuantity_def restoreStockQuantity_def applyUpdates_def
        updateStockItem_def soldUpdate_def restoreUpdate_def matchedStock_def unitsMatch_def
        falsy_def stockQuery_def a m f3)
qed

text \<open>C4. The reconciler compares names with \<open>===\<close>. A line "apple" passes the form's
  checks against the stock item "Apple" (validateInventory compares lower-cased names),
  the receipt is saved, and the stock is left as it was; the same line spelt "Apple"
  is decremented.\<close>

theorem name_match_is_case_sensitive:
  "checkItems [entry ''apple'' 50 1 ''units''] = None
   \<and> validateInventory toLowerCase True shelf [entry ''apple'' 50 1 ''units''] = Valid
   \<and> soldUpdate (stockQuery ''shop1'' shelf) (soldLine (entry ''apple'' 50 1 ''units'')) = None
   \<and> updateStockQuantity 7 ''shop1'' [soldLine (entry ''apple'' 50 1 ''units'')] shelf = shelf
   \<and> restoreStockQuantity 7 ''shop1'' [receiptLine (entry ''apple'' 50 1 ''units'')] shelf = shelf
   \<and> map_sum id stock
        (handleSubmit toLowerCase 7 ''r2'' ''shop1'' (counter True [entry ''apple'' 50 1 ''units'']) shop0)
       = Inr shelf
   \<and> map quantity (updateStockQuantity 7 ''shop1'' [soldLine (entry ''Apple'' 50 1 ''units'')] shelf)
       = [1, 10]"
  by (simp add: entry_def counter_def shop0_def shelf_def apple_def rice_def
      checkItem_def blank_eval isInteger_def
      validateInventory_def inventoryCheck_def toLowerCase_def toLowerChar_def
      handleSubmit_def soldLine_def receiptLine_def
      updateStockQuantity_def restoreStockQuantity_def applyUpdates_def
      updateStockItem_def soldUpdate_def restoreUpdate_def unitsMatch_def
      falsy_def stockQuery_def whole_eval)

section \<open>The invariant of the stock quantities\<close>

lemma docAfter_nonneg:
  assumes "\<forall>u \<in> set us. \<forall>i q. u = Some (i, q) \<longrightarrow> 0 \<le> q" and "0 \<le> quantity d"
  shows "0 \<le> quantity (docAfter now us d)"
  using assms
proof (induction us rule: rev_induct)
  case Nil
  then show ?case by (simp add: docAfter_def)
next
  case (snoc u us)
  then have IH: "0 \<le> quantity (docAfter now us d)" by simp
  show ?case
  proof (cases u)
    case None
    then show ?thesis using IH by (simp add: docAfter_snoc)
  next
    case (Some p)
    obtain i q where p: "p = (i, q)" by (cases p)
    have "0 \<le> q" using snoc.prems(1) Some p by simp
    then show ?thesis using IH Some p by (simp add: docAfter_snoc)
  qed
qed

lemma docAfter_written:
  "docAfter now us d = d \<or> (\<exists>i q. Some (i, q) \<in> set us \<and> quantity (docAfter now us d) = q)"
proof (induction us rule: rev_induct)
  case Nil
  show ?case by (simp add: docAfter_def)
next
  case (snoc u us)
  show ?case
  proof (cases u)
    case None
    then show ?thesis using snoc by (auto simp: docAfter_snoc)
  next
    case (Some p)
    obtain i q where p: "p = (i, q)" by (cases p)
    show ?thesis using snoc Some p by (auto simp: docAfter_snoc)
  qed
qed

lemma soldUpdate_nonneg: "soldUpdate SI l = Some (i, q) \<Longrightarrow> 0 \<le> q"
  by (auto simp: soldUpdate_def split: option.splits if_splits)

lemma restoreUpdate_nonneg:
  assumes "restoreUpdate SI l = Some (i, q)" and "\<forall>d \<in> set SI. 0 \<le> quantity d"
    and "0 \<le> item_quantity l"
  shows "0 \<le> q"
proof -
  from assms(1) obtain m where m: "find (\<lambda>item. name item = item_name l) SI = Some m"
    and q: "q = js_add (quantity m) (item_quantity l)"
    by (auto simp: restoreUpdate_def split: option.splits if_splits)
  have "m \<in> set SI" using m by (rule find_Some_mem)
  then have "0 \<le> quantity m" using assms(2) by simp
  then show ?thesis unfolding q using assms(3) by (rule js_add_nonneg)
qed

lemma updateStockQuantity_clamps:
  "d \<in> set (updateStockQuantity now shop its store) \<Longrightarrow> d \<in> set store \<or> 0 \<le> quantity d"
proof -
  assume "d \<in> set (updateStockQuantity now shop its store)"
  then obtain d0 where d0: "d0 \<in> set store"
      and d: "d = docAfter now (map (soldUpdate (stockQuery shop store)) its) d0"
    by (auto simp: updateStockQuantity_map)
  from docAfter_written[of now "map (soldUpdate (stockQuery shop store)) its" d0]
  show ?thesis
  proof
    assume "docAfter now (map (soldUpdate (stockQuery shop store)) its) d0 = d0"
    then show ?thesis using d d0 by simp
  next
    assume "\<exists>i q. Some (i, q) \<in> set (map (soldUpdate (stockQuery shop store)) its) \<and>
        quantity (docAfter now (map (soldUpdate (stockQuery shop store)) its) d0) = q"
    then obtain i q where w: "Some (i, q) \<in> set (map (soldUpdate (stockQuery shop store)) its)"
      and q: "quantity (docAfter now (map (soldUpdate (stockQuery shop store)) its) d0) = q" by blast
    from w obtain l where "soldUpdate (stockQuery shop store) l = Some (i, q)" by auto
    then have "0 \<le> q" by (rule soldUpdate_nonneg)
    then show ?thesis using d q by simp
  qed
qed

lemma updateStockQuantity_nonneg:
  assumes "\<forall>d \<in> set store. 0 \<le> quantity d"
  shows "\<forall>d \<in> set (updateStockQuantity now shop its store). 0 \<le> quantity d"
  using assms updateStockQuantity_clamps by blast

lemma restoreStockQuantity_nonneg:
  assumes st: "\<forall>d \<in> set store. 0 \<le> quantity d" and ls: "\<forall>l \<in> set its. 0 \<le> item_quantity l"
  shows "\<forall>d \<in> set (restoreStockQuantity now shop its store). 0 \<le> quantity d"
proof
  fix d assume "d \<in> set (restoreStockQuantity now shop its store)"
  then obtain d0 where d0: "d0 \<in> set store"
      and d: "d = docAfter now (map (restoreUpdate (stockQuery shop store)) its) d0"
    by (auto simp: restoreStockQuantity_map)
  have SI: "\<forall>d \<in> set (stockQuery shop store). 0 \<le> quantity d"
    using st stockQuery_subset by blast
  have "\<forall>u \<in> set (map (restoreUpdate (stockQuery shop store)) its). \<forall>i q. u = Some (i, q) \<longrightarrow> 0 \<le> q"
    using restoreUpdate_nonneg[OF _ SI] ls by auto
  then show "0 \<le> quantity d"
    unfolding d using d0 st by (intro docAfter_nonneg) auto
qed

lemma checkItem_quantity:
  "checkItem item = None \<Longrightarrow> \<exists>q. f_quantity item = Numeric q \<and> 0 < double_round q"
  by (cases "f_quantity item"; cases "f_price item")
     (auto simp: checkItem_def split: if_splits)

lemma checkItems_all: "checkItems its = None \<Longrightarrow> item \<in> set its \<Longrightarrow> checkItem item = None"
  by (induction its) (auto split: option.splits)

lemma receiptLine_nonneg:
  assumes "checkItems its = None" and "l \<in> set (map receiptLine its)"
  shows "0 \<le> item_quantity l"
proof -
  obtain item where i: "item \<in> set its" and l: "l = receiptLine item" using assms(2) by auto
  obtain q where "f_quantity item = Numeric q" "0 < double_round q"
    using checkItem_quantity[OF checkItems_all[OF assms(1) i]] by blast
  then show ?thesis by (simp add: l receiptLine_def)
qed

lemma handleSubmit_nonneg:
  assumes "nonneg s" and "handleSubmit lc now newId shop f s = Inr s'"
  shows "nonneg s'"
proof -
  from assms(2) have ok: "checkItems (form_items f) = None"
    by (auto simp: handleSubmit_def split: if_splits option.splits validation.splits)
  from assms(2) have st: "stock s' = updateStockQuantity now shop (map soldLine (form_items f)) (stock s)"
    by (auto simp: handleSubmit_def Let_def split: if_splits option.splits validation.splits)
  from assms(2) have "\<exists>r. receipts s' = receipts s @ [r] \<and> ritems r = map receiptLine (form_items f)"
    by (auto simp: handleSubmit_def Let_def split: if_splits option.splits validation.splits)
  then obtain r where rs: "receipts s' = receipts s @ [r]"
    and r: "ritems r = map receiptLine (form_items f)" by blast
  have a: "\<forall>d \<in> set (stock s'). 0 \<le> quantity d"
    unfolding st using assms(1) by (intro updateStockQuantity_nonneg) (simp add: nonneg_def)
  have b: "\<forall>x \<in> set (receipts s'). \<forall>l \<in> set (ritems x). 0 \<le> item_quantity l"
    using assms(1) receiptLine_nonneg[OF ok] by (auto simp: rs r nonneg_def)
  show ?thesis using a b by (simp add: nonneg_def)
qed

lemma deleteReceipt_nonneg:
  assumes "nonneg s" and "deleteReceipt now receiptId s = Inr s'"
  shows "nonneg s'"
proof -
  from assms(2) obtain r where f: "find (\<lambda>x. rid x = receiptId) (receipts s) = Some r"
    by (auto simp: deleteReceipt_def split: option.splits)
  have rin: "r \<in> set (receipts s)" using f by (rule find_Some_mem)
  have ls: "\<forall>l \<in> set (ritems r). 0 \<le> item_quantity l"
    using assms(1) rin by (simp add: nonneg_def)
  have st: "\<forall>d \<in> set (stock s). 0 \<le> quantity d" using assms(1) by (simp add: nonneg_def)
  have rs: "receipts s' = filter (\<lambda>x. rid x \<noteq> receiptId) (receipts s)"
    using assms(2) f by (auto simp: deleteReceipt_def Let_def split: if_splits)
  have "stock s' = stock s \<or> stock s' = restoreStockQuantity now (rshopId r) (ritems r) (stock s)"
    using assms(2) f by (auto simp: deleteReceipt_def Let_def split: if_splits)
  then have a: "\<forall>d \<in> set (stock s'). 0 \<le> quantity d"
    using st restoreStockQuantity_nonneg[OF st ls] by auto
  have b: "\<forall>x \<in> set (receipts s'). \<forall>l \<in> set (ritems x). 0 \<le> item_quantity l"
    using assms(1) by (auto simp: rs nonneg_def)
  show ?thesis using a b by (simp add: nonneg_def)
qed

lemma step_nonneg: "nonneg s \<Longrightarrow> nonneg (step lc s e)"
proof (cases e)
  case (Submit now newId shop f)
  assume "nonneg s"
  then show ?thesis using Submit handleSubmit_nonneg
    by (cases "handleSubmit lc now newId shop f s") auto
next
  case (Delete now receiptId)
  assume "nonneg s"
  then show ?thesis using Delete deleteReceipt_nonneg
    by (cases "deleteReceipt now receiptId s") auto
qed

lemma run_nonneg: "nonneg s \<Longrightarrow> nonneg (run lc s events)"
  unfolding run_def
  by (induction events arbitrary: s) (simp_all add: step_nonneg)

lemma validateInventory_insufficient:
  assumes "item \<in> set its"
    and "find (\<lambda>stockItem. lc (name stockItem) = lc (f_name item)) SI = Some m"
    and "f_quantity item = Numeric q" and "quantity m < double_round q"
  shows "\<exists>inv. validateInventory lc True SI its = Invalid inv
               \<and> InsufficientQuantity (f_name item) (quantity m) \<in> set inv"
proof -
  have "InsufficientQuantity (f_name item) (quantity m) \<in> set (inventoryCheck lc SI item)"
    using assms(2-4) by (simp add: inventoryCheck_def)
  then have c: "InsufficientQuantity (f_name item) (quantity m) \<in> set (concat (map (inventoryCheck lc SI) its))"
    using assms(1) by auto
  then have "concat (map (inventoryCheck lc SI) its) \<noteq> []" by force
  then show ?thesis using c
    by (simp add: validateInventory_def Let_def)
qed

text \<open>C6 (as amended). If no stock quantity and no stored line quantity is negative, that
  stays so after any sequence of submitted and deleted receipts. The reconciler refuses
  nothing: it leaves a stock item as it was or writes a clamped, non-negative quantity,
  0 when the line asks for more than the stock holds. The receipt form saves every
  well-formed receipt that validateInventory lets through, whatever the stock in the
  store holds, and the stock is then clamped; validateInventory lets every receipt
  through when the page has not loaded the stock, and otherwise judges by the stock the
  page loaded, which may be stale. The form refuses a receipt with a line that asks for
  more than the loaded stock item holds.\<close>

theorem nonneg_by_clamping:
  "(nonneg s \<longrightarrow> nonneg (run lc s events))
   \<and> (\<forall>d \<in> set (updateStockQuantity now shop its store). d \<in> set store \<or> 0 \<le> quantity d)
   \<and> (distinct (map sid store) \<and> i < length store
       \<and> find (\<lambda>k. matchedStock (stockQuery shop store) k = Some (store ! i)) (rev its) = Some l
       \<and> quantity (store ! i) < item_quantity l
        \<longrightarrow> quantity (updateStockQuantity now shop its store ! i) = 0)
   \<and> (\<not> blank (form_cashierName f) \<and> checkItems (form_items f) = None
       \<and> validateInventory lc (form_stockLoaded f) (form_stockItems f) (form_items f) = Valid
        \<longrightarrow> (\<exists>s'. handleSubmit lc now newId shop f s = Inr s'
               \<and> length (receipts s') = length (receipts s) + 1
               \<and> stock s' = updateStockQuantity now shop (map soldLine (form_items f)) (stock s)))
   \<and> (\<not> form_stockLoaded f
        \<longrightarrow> validateInventory lc (form_stockLoaded f) (form_stockItems f) (form_items f) = Valid)
   \<and> (\<not> blank (form_cashierName g) \<and> checkItems (form_items g) = None \<and> form_stockLoaded g
       \<and> (\<exists>item \<in> set (form_items g). \<exists>m.
             find (\<lambda>stockItem. lc (name stockItem) = lc (f_name item)) (form_stockItems g) = Some m
             \<and> quantity m < number (f_quantity item))
        \<longrightarrow> (\<exists>inv. handleSubmit lc now newId shop g s = Inl (InventoryError inv)))"
proof (intro conjI impI)
  assume "nonneg s" then show "nonneg (run lc s events)" by (rule run_nonneg)
next
  show "\<forall>d \<in> set (updateStockQuantity now shop its store). d \<in> set store \<or> 0 \<le> quantity d"
    using updateStockQuantity_clamps by blast
next
  assume a: "distinct (map sid store) \<and> i < length store
       \<and> find (\<lambda>k. matchedStock (stockQuery shop store) k = Some (store ! i)) (rev its) = Some l
       \<and> quantity (store ! i) < item_quantity l"
  then have d: "store ! i \<in> set store" by simp
  have "quantity (updateStockQuantity now shop its store ! i)
           = max 0 (js_sub (quantity (store ! i)) (item_quantity l))"
    using a quantity_after_sale[of store "store ! i" now shop its] d
    by (simp add: updateStockQuantity_map)
  then show "quantity (updateStockQuantity now shop its store ! i) = 0"
    using a js_sub_neg[of "quantity (store ! i)" "item_quantity l"] by simp
next
  assume "\<not> blank (form_cashierName f) \<and> checkItems (form_items f) = None
       \<and> validateInventory lc (form_stockLoaded f) (form_stockItems f) (form_items f) = Valid"
  then show "\<exists>s'. handleSubmit lc now newId shop f s = Inr s'
               \<and> length (receipts s') = length (receipts s) + 1
               \<and> stock s' = updateStockQuantity now shop (map soldLine (form_items f)) (stock s)"
    using handleSubmit_accepts by blast
next
  assume "\<not> form_stockLoaded f"
  then show "validateInventory lc (form_stockLoaded f) (form_stockItems f) (form_items f) = Valid"
    by (simp add: validateInventory_def)
next
  assume a: "\<not> blank (form_cashierName g) \<and> checkItems (form_items g) = None \<and> form_stockLoaded g
       \<and> (\<exists>item \<in> set (form_items g). \<exists>m.
             find (\<lambda>stockItem. lc (name stockItem) = lc (f_name item)) (form_stockItems g) = Some m
             \<and> quantity m < number (f_quantity item))"
  then obtain item m where i: "item \<in> set (form_items g)"
    and m: "find (\<lambda>stockItem. lc (name stockItem) = lc (f_name item)) (form_stockItems g) = Some m"
    and lt: "quantity m < number (f_quantity item)" by blast
  have "checkItems (form_items g) = None" using a by simp
  then have "checkItem item = None" using i by (rule checkItems_all)
  then obtain q where q: "f_quantity item = Numeric q"
    using checkItem_quantity by blast
  have lt': "quantity m < double_round q" using lt q by simp
  obtain inv where "validateInventory lc True (form_stockItems g) (form_items g) = Invalid inv"
    using validateInventory_insufficient[OF i m q lt'] by blast
  then show "\<exists>inv. handleSubmit lc now newId shop g s = Inl (InventoryError inv)"
    using a by (simp add: handleSubmit_def)
qed

theorem nonneg_by_clamping_witness:
  "nonneg shop0 \<and> nonneg (run toLowerCase shop0 day)
   \<and> map quantity (stock shop0) = [2, 10]
   \<and> form_stockLoaded (staleCounter [entry ''Apple'' 50 5 ''units''])
   \<and> validateInventory toLowerCase True (form_stockItems (staleCounter [entry ''Apple'' 50 5 ''units'']))
        [entry ''Apple'' 50 5 ''units''] = Valid
   \<and> (\<exists>s'. handleSubmit toLowerCase 7 ''r2'' ''shop1'' (staleCounter [entry ''Apple'' 50 5 ''units'']) shop0 = Inr s'
          \<and> length (receipts s') = 1 \<and> map quantity (stock s') = [0, 10])
   \<and> quantity (updateStockQuantity 7 ''shop1'' oversale shelf ! 0) = 0
   \<and> form_stockLoaded (counter True [entry ''Apple'' 50 5 ''units''])
   \<and> find (\<lambda>stockItem. toLowerCase (name stockItem) = toLowerCase ''Apple'') shelf = Some apple
   \<and> quantity apple < number (Numeric 5)
   \<and> (\<exists>inv. handleSubmit toLowerCase 7 ''r2'' ''shop1'' (counter True [entry ''Apple'' 50 5 ''units'']) shop0
               = Inl (InventoryError inv))
   \<and> blank [CHR 0xC2, CHR 0xA0]"
proof -
  let ?f = "staleCounter [entry ''Apple'' 50 5 ''units'']"
  let ?g = "counter True [entry ''Apple'' 50 5 ''units'']"
  note T = nonneg_by_clamping[where s = shop0 and events = day and now = 7 and shop = "''shop1''"
      and its = oversale and store = shelf and f = ?f and g = ?g and newId = "''r2''"
      and lc = toLowerCase and i = 0 and l = "line ''Apple'' 5 ''units''"]
  have n0: "nonneg shop0"
    by (simp add: nonneg_def shop0_def shelf_def apple_def rice_def)
  have q0: "map quantity (stock shop0) = [2, 10]"
    by (simp add: shop0_def shelf_def apple_def rice_def)
  have ck: "checkItems [entry ''Apple'' 50 5 ''units''] = None"
    by (simp add: entry_def checkItem_def blank_eval isInteger_def whole_eval)
  have bl: "\<not> blank ''Ali''" by (simp add: blank_eval)
  have nb: "blank [CHR 0xC2, CHR 0xA0]" by (simp add: blank_eval)
  have v: "validateInventory toLowerCase True (form_stockItems ?f) [entry ''Apple'' 50 5 ''units''] = Valid"
    by (simp add: staleCounter_def entry_def validateInventory_def inventoryCheck_def
        toLowerCase_def toLowerChar_def apple_def rice_def whole_eval)
  have hf: "\<not> blank (form_cashierName ?f) \<and> checkItems (form_items ?f) = None
       \<and> validateInventory toLowerCase (form_stockLoaded ?f) (form_stockItems ?f) (form_items ?f) = Valid"
    using ck bl v by (simp add: staleCounter_def)
  have fa: "find (\<lambda>stockItem. toLowerCase (name stockItem) = toLowerCase ''Apple'') shelf = Some apple"
    by (simp add: shelf_def apple_def rice_def toLowerCase_def toLowerChar_def)
  have qa: "quantity apple < number (Numeric 5)" by (simp add: apple_def whole_eval)
  have hg: "\<not> blank (form_cashierName ?g) \<and> checkItems (form_items ?g) = None \<and> form_stockLoaded ?g
       \<and> (\<exists>item \<in> set (form_items ?g). \<exists>m.
             find (\<lambda>stockItem. toLowerCase (name stockItem) = toLowerCase (f_name item)) (form_stockItems ?g) = Some m
             \<and> quantity m < number (f_quantity item))"
    using ck bl fa qa by (simp add: counter_def entry_def)
  have hz: "distinct (map sid shelf) \<and> 0 < length shelf
       \<and> find (\<lambda>k. matchedStock (stockQuery ''shop1'' shelf) k = Some (shelf ! 0)) (rev oversale)
           = Some (line ''Apple'' 5 ''units'')
       \<and> quantity (shelf ! 0) < item_quantity (line ''Apple'' 5 ''units'')"
    by (simp add: oversale_def shelf_def apple_def rice_def line_def stockQuery_def
        matchedStock_def unitsMatch_def falsy_def)
  have c1: "nonneg (run toLowerCase shop0 day)" using T n0 by blast
  have c2: "quantity (updateStockQuantity 7 ''shop1'' oversale shelf ! 0) = 0" using T hz by blast
  have "\<exists>s'. handleSubmit toLowerCase 7 ''r2'' ''shop1'' ?f shop0 = Inr s'
               \<and> length (receipts s') = length (receipts shop0) + 1
               \<and> stock s' = updateStockQuantity 7 ''shop1'' (map soldLine (form_items ?f)) (stock shop0)"
    using T hf by blast
  moreover have "map quantity (updateStockQuantity 7 ''shop1'' (map soldLine (form_items ?f)) (stock shop0)) = [0, 10]"
    by (simp add: staleCounter_def entry_def soldLine_def shop0_def shelf_def apple_def rice_def
        updateStockQuantity_def applyUpdates_def updateStockItem_def soldUpdate_def
        unitsMatch_def falsy_def stockQuery_def whole_eval)
  ultimately have c3: "\<exists>s'. handleSubmit toLowerCase 7 ''r2'' ''shop1'' ?f shop0 = Inr s'
          \<and> length (receipts s') = 1 \<and> map quantity (stock s') = [0, 10]"
    by (auto simp: shop0_def)
  have c4: "\<exists>inv. handleSubmit toLowerCase 7 ''r2'' ''shop1'' ?g shop0 = Inl (InventoryError inv)"
    using T hg by blast
  show ?thesis using n0 c1 q0 v c2 c3 c4 fa qa nb by (simp add: counter_def staleCounter_def)
qed

text \<open>C6 as stated fails: when the stock the page has loaded holds 2 of an item, a receipt
  for 5 of it is refused, nothing is saved and the stock is not clamped.\<close>

theorem oversell_refused_counterexample:
  "form_stockLoaded (counter True [entry ''Apple'' 50 5 ''units''])
   \<and> stock shop0 = form_stockItems (counter True [entry ''Apple'' 50 5 ''units''])
   \<and> quantity apple = 2
   \<and> handleSubmit toLowerCase 7 ''r2'' ''shop1'' (counter True [entry ''Apple'' 50 5 ''units'']) shop0
       = Inl (InventoryError [InsufficientQuantity ''Apple'' 2])
   \<and> step toLowerCase shop0 (Submit 7 ''r2'' ''shop1'' (counter True [entry ''Apple'' 50 5 ''units''])) = shop0"
  by (simp add: entry_def counter_def shop0_def shelf_def apple_def rice_def
      checkItem_def blank_eval isInteger_def
      validateInventory_def inventoryCheck_def toLowerCase_def toLowerChar_def
      handleSubmit_def whole_eval)

section \<open>The receipt total\<close>






















section \<open>Login attempts\<close>

lemmas login_defs =
  loginSubmit_def lockCheck_def login_def loginFailed_def loginSucceeded_def
  submitFailed_def submitSucceeded_def updateShop_def attemptsOr0_def
  toLowerCase_def toLowerChar_def

lemma updateShop_uid: "(\<And>d. uid (f d) = uid d) \<Longrightarrow> map uid (updateShop i f shops) = map uid shops"
  by (simp add: updateShop_def)

lemma updateShop_find:
  assumes "\<And>d. uid (f d) = uid d"
  shows "find (\<lambda>d. uid d = i) (updateShop j f shops) =
         map_option (\<lambda>d. if uid d = j then f d else d) (find (\<lambda>d. uid d = i) shops)"
  unfolding updateShop_def
  by (rule find_map_pres) (simp add: assms)

lemma loginSucceeded_exists:
  assumes "d \<in> set shops" and "uid d = user"
  shows "\<exists>userData. find (\<lambda>d. uid d = user) (loginSucceeded now user shops) = Some userData"
proof -
  have "find (\<lambda>d. uid d = user) shops \<noteq> None"
    using assms by (auto simp: find_None_iff)
  then obtain u where u: "find (\<lambda>d. uid d = user) shops = Some u" by blast
  show ?thesis
    by (simp add: loginSucceeded_def u updateShop_find)
qed

lemma distinct_uid_eq:
  "distinct (map uid shops) \<Longrightarrow> a \<in> set shops \<Longrightarrow> b \<in> set shops \<Longrightarrow> uid a = uid b \<Longrightarrow> a = b"
  by (meson distinct_map inj_onD)

lemma loginSucceeded_reads_zero:
  assumes "distinct (map uid shops)"
    and "d' \<in> set (loginSucceeded now user shops)" and "uid d' = user"
  shows "attemptsOr0 d' = 0"
proof (cases "find (\<lambda>d. uid d = user) shops")
  case None
  then have "\<forall>d \<in> set shops. uid d \<noteq> user" by (simp add: find_None_iff)
  then show ?thesis using assms None by (auto simp: loginSucceeded_def)
next
  case (Some u)
  have uu: "uid u = user" using Some by (rule find_Some_holds)
  have uin: "u \<in> set shops" using Some by (rule find_Some_mem)
  define f where "f = (if attemptsOr0 u \<noteq> 0
      then (\<lambda>d. d\<lparr>failedLoginAttempts := Some 0, lastLoginAt := Some now\<rparr>)
      else (\<lambda>d::shopAccount. d\<lparr>lastLoginAt := Some now\<rparr>))"
  have fu: "\<And>d. uid (f d) = uid d" by (simp add: f_def)
  have ls: "loginSucceeded now user shops = updateShop user f shops"
    by (simp add: loginSucceeded_def Some f_def)
  from assms(2) obtain d0 where d0: "d0 \<in> set shops" and d': "d' = (if uid d0 = user then f d0 else d0)"
    by (auto simp: ls updateShop_def)
  have "uid d0 = user" using d' assms(3) fu by (auto split: if_splits)
  then have "d0 = u" using distinct_uid_eq[OF assms(1) d0 uin] uu by simp
  then have "d' = f u" using d' uu by simp
  then show ?thesis by (auto simp: f_def attemptsOr0_def)
qed

text \<open>C8. After a successful login through the login page (the lock check let the
  attempt through and the sign-in succeeded) the document of the account has
  \<open>failedLoginAttempts = 0\<close>, whatever it held before. After \<open>login\<close> of AuthContext
  alone the field reads as 0: it is reset when it held a count, and left absent or 0
  otherwise.\<close>

theorem successful_login_resets:
  assumes "lockCheck now em shops = None" and "acct \<in> set shops" and "distinct (map uid shops)"
  shows "(\<exists>d \<in> set (snd (loginSubmit now em (SignedIn (uid acct)) shops)). uid d = uid acct)
       \<and> (\<forall>d \<in> set (snd (loginSubmit now em (SignedIn (uid acct)) shops)).
             uid d = uid acct \<longrightarrow> failedLoginAttempts d = Some 0)
       \<and> (\<forall>d \<in> set (snd (login now em (SignedIn (uid acct)) shops)).
             uid d = uid acct \<longrightarrow> attemptsOr0 d = 0)"
proof -
  let ?user = "uid acct"
  let ?s1 = "loginSucceeded now ?user shops"
  obtain userData where u: "find (\<lambda>d. uid d = ?user) ?s1 = Some userData"
    using loginSucceeded_exists[OF assms(2) refl] by blast
  let ?s2 = "updateShop ?user (\<lambda>d. d\<lparr>failedLoginAttempts := Some 0, lastLoginAt := Some now\<rparr>) ?s1"
  have r: "snd (loginSubmit now em (SignedIn ?user) shops) = ?s2"
    by (simp add: loginSubmit_def assms(1) login_def submitSucceeded_def u Let_def)
  have uin: "userData \<in> set ?s1" "uid userData = ?user"
    using u by (auto dest: find_Some_mem find_Some_holds)
  have "map uid ?s2 = map uid ?s1" by (rule updateShop_uid) simp
  then have "uid ` set ?s2 = uid ` set ?s1" by (metis set_map)
  then have a: "\<exists>d \<in> set ?s2. uid d = ?user"
    using uin by (metis (no_types, lifting) imageE image_eqI)
  have b: "\<forall>d \<in> set ?s2. uid d = ?user \<longrightarrow> failedLoginAttempts d = Some 0"
    by (auto simp: updateShop_def)
  have c: "\<forall>d \<in> set (snd (login now em (SignedIn ?user) shops)). uid d = ?user \<longrightarrow> attemptsOr0 d = 0"
    using loginSucceeded_reads_zero[OF assms(3)] by (simp add: login_def)
  show ?thesis unfolding r using a b c by blast
qed

text \<open>C3. While the account found for the email typed is locked (it has a lock time and a
  duration, and the time plus the duration is still ahead), an attempt is turned away
  before the password is looked at, whatever the password, and the store is left as it
  was, \<open>failedLoginAttempts\<close> included.\<close>

theorem locked_attempt_rejected:
  assumes "find (\<lambda>d. email d = Some (toLowerCase em)) shops = Some acct"
    and "lockedUntil acct = Some t" and "lockDuration acct = Some m" and "m \<noteq> 0"
    and "now < t + m * 60000"
  shows "loginSubmit now em answer shops
           = (TemporarilyLocked \<lceil>(rat_of_nat (t + m * 60000) - rat_of_nat now) / 60000\<rceil>, shops)"
  using assms by (simp add: loginSubmit_def lockCheck_def)

theorem locked_attempt_rejected_witness:
  "failedAttemptsAt ''carol@x.pk'' [1000, 2000, 3000, 4000, 5000] [carol] = [carolLocked]
   \<and> find (\<lambda>d. email d = Some (toLowerCase ''carol@x.pk'')) [carolLocked] = Some carolLocked
   \<and> lockedUntil carolLocked = Some 5000 \<and> lockDuration carolLocked = Some 15
   \<and> (15 :: nat) \<noteq> 0 \<and> (6000 :: nat) < 5000 + 15 * 60000
   \<and> loginSubmit 6000 ''carol@x.pk'' (Refused WrongPassword) [carolLocked]
        = (TemporarilyLocked 15, [carolLocked])
   \<and> loginSubmit 6000 ''carol@x.pk'' (SignedIn ''u2'') [carolLocked]
        = (TemporarilyLocked 15, [carolLocked])
   \<and> lockCheck 905000 ''carol@x.pk'' [carolLocked] = None"
proof -
  have f5: "failedAttemptsAt ''carol@x.pk'' [1000, 2000, 3000, 4000, 5000] [carol] = [carolLocked]"
    by (simp add: failedAttemptsAt_def login_defs carol_def carolLocked_def registered_def)
  have h1: "find (\<lambda>d. email d = Some (toLowerCase ''carol@x.pk'')) [carolLocked] = Some carolLocked"
    by (simp add: toLowerCase_def toLowerChar_def carol_def carolLocked_def registered_def)
  have h2: "lockedUntil carolLocked = Some 5000" by (simp add: carolLocked_def)
  have h3: "lockDuration carolLocked = Some 15" by (simp add: carolLocked_def)
  have h4: "(15 :: nat) \<noteq> 0" by simp
  have h5: "(6000 :: nat) < 5000 + 15 * 60000" by simp
  have c: "\<lceil>(rat_of_nat (5000 + 15 * 60000) - rat_of_nat 6000) / 60000\<rceil> = 15"
    by (rule ceiling_unique; simp)
  have e: "lockCheck 905000 ''carol@x.pk'' [carolLocked] = None"
    using h1 by (simp add: lockCheck_def h2 h3)
  show ?thesis
    using locked_attempt_rejected[OF h1 h2 h3 h4 h5, of "Refused WrongPassword"]
      locked_attempt_rejected[OF h1 h2 h3 h4 h5, of "SignedIn ''u2''"]
      f5 h1 h2 h3 e
    unfolding c by simp
qed

theorem successful_login_resets_witness:
  "lockCheck 905000 ''carol@x.pk'' [carolLocked] = None \<and> carolLocked \<in> set [carolLocked]
   \<and> distinct (map uid [carolLocked]) \<and> uid carolLocked = ''u2''
   \<and> failedLoginAttempts carolLocked = Some 5
   \<and> loginSubmit 905000 ''carol@x.pk'' (SignedIn ''u2'') [carolLocked]
        = (Dashboard, [carolLocked\<lparr>failedLoginAttempts := Some 0, lastLoginAt := Some 905000\<rparr>])"
proof -
  have h1: "lockCheck 905000 ''carol@x.pk'' [carolLocked] = None"
    by (simp add: lockCheck_def toLowerCase_def toLowerChar_def carol_def carolLocked_def registered_def)
  have h2: "carolLocked \<in> set [carolLocked]" by simp
  have h3: "distinct (map uid [carolLocked])" by simp
  have u: "uid carolLocked = ''u2''" by (simp add: carol_def carolLocked_def)
  have a: "failedLoginAttempts carolLocked = Some 5" by (simp add: carolLocked_def)
  have e: "loginSubmit 905000 ''carol@x.pk'' (SignedIn ''u2'') [carolLocked]
        = (Dashboard, [carolLocked\<lparr>failedLoginAttempts := Some 0, lastLoginAt := Some 905000\<rparr>])"
    by (simp add: login_defs carol_def carolLocked_def registered_def)
  show ?thesis
    using successful_login_resets[OF h1 h2 h3] h1 h3 u a e by simp
qed

text \<open>C2. For the account that registerShop stores (found by \<open>userEmail\<close>, no \<open>email\<close> field)
  the fifth failed attempt sets \<open>accountStatus\<close> to locked with no lock time and no
  duration: the sixth attempt is not turned away and is counted, and a later successful
  login resets the count and leaves the status locked. When the document also has the
  \<open>email\<close> field, each failed attempt is counted twice, by \<open>login\<close> and by the page, and the
  status is locked by the third attempt, again with no expiry. The lock of the claim
  (a lock time and 15 minutes at the fifth attempt) is reached only when \<open>login\<close> does not
  find the document.\<close>

theorem lockout_evaluated:
  "failedAttemptsAt ''ali@x.pk'' [1000, 2000, 3000, 4000, 5000] [registered]
     = [registered\<lparr>failedLoginAttempts := Some 5, accountStatus := Some ''locked'',
                    lockedAt := Some 5000, lastFailedLoginAt := Some 5000\<rparr>]
   \<and> lockCheck 6000 ''ali@x.pk'' (failedAttemptsAt ''ali@x.pk'' [1000, 2000, 3000, 4000, 5000] [registered]) = None
   \<and> map failedLoginAttempts (failedAttemptsAt ''ali@x.pk'' [1000, 2000, 3000, 4000, 5000, 6000] [registered])
       = [Some 6]
   \<and> loginSubmit 7000 ''ali@x.pk'' (SignedIn ''u1'')
        (failedAttemptsAt ''ali@x.pk'' [1000, 2000, 3000, 4000, 5000] [registered])
       = (Dashboard, [registered\<lparr>failedLoginAttempts := Some 0, accountStatus := Some ''locked'',
                                 lockedAt := Some 5000, lastFailedLoginAt := Some 5000,
                                 lastLoginAt := Some 7000\<rparr>])
   \<and> failedAttemptsAt ''ali@x.pk'' [1000, 2000, 3000] [registeredWithEmail]
       = [registeredWithEmail\<lparr>failedLoginAttempts := Some 5, accountStatus := Some ''locked'',
                              lockedAt := Some 3000, lastFailedLoginAt := Some 3000\<rparr>]
   \<and> map failedLoginAttempts (failedAttemptsAt ''ali@x.pk'' [1000, 2000, 3000, 4000, 5000] [registeredWithEmail])
       = [Some 7]
   \<and> map lockedUntil (failedAttemptsAt ''ali@x.pk'' [1000, 2000, 3000, 4000, 5000] [registeredWithEmail])
       = [None]
   \<and> failedAttemptsAt ''carol@x.pk'' [1000, 2000, 3000, 4000, 5000] [carol]
       = [carol\<lparr>failedLoginAttempts := Some 5, lockedUntil := Some 5000,
                 lockDuration := Some 15, lastFailedLoginAt := Some 5000\<rparr>]"
  by (simp add: failedAttemptsAt_def login_defs registered_def registeredWithEmail_def carol_def)

end
